theory Spec2Isabelle
  imports Main "HOL-Library.AList"
begin

section \<open>JavaScript strings\<close>

text \<open>
  A JavaScript string is a sequence of UTF-16 code units. A code unit is modelled as a
  natural number (the functions below never compute with code units, they only compare
  them), a string as the list of its code units. \<open>js\<close> turns a literal into such a list.
\<close>

type_synonym jsstr = "nat list"

definition js :: "string \<Rightarrow> jsstr" where
  "js s = map of_char s"

definition EQUALS :: nat where "EQUALS = 61"
definition COLON :: nat where "COLON = 58"
definition SEMICOLON :: nat where "SEMICOLON = 59"
definition NEWLINE :: nat where "NEWLINE = 10"

text \<open>
  \<open>String.prototype.trim\<close> removes WhiteSpace and LineTerminator code units from both
  ends: TAB, LF, VT, FF, CR, SP, NBSP, U+1680, U+2000..U+200A, U+2028, U+2029, U+202F,
  U+205F, U+3000 and U+FEFF.
\<close>

definition isWhiteSpace :: "nat \<Rightarrow> bool" where
  "isWhiteSpace c =
     (c \<in> set [9, 10, 11, 12, 13, 32, 160, 5760, 8232, 8233, 8239, 8287, 12288, 65279]
      \<or> (8192 \<le> c \<and> c \<le> 8202))"

definition trim :: "jsstr \<Rightarrow> jsstr" where
  "trim s = rev (dropWhile isWhiteSpace (rev (dropWhile isWhiteSpace s)))"

text \<open>\<open>s.indexOf(c)\<close> for a one-character needle: the first index, or \<open>-1\<close>.\<close>

fun indexOf :: "nat \<Rightarrow> jsstr \<Rightarrow> int" where
  "indexOf c [] = -1"
| "indexOf c (x # xs) =
     (if x = c then 0 else (let i = indexOf c xs in if i < 0 then -1 else i + 1))"

text \<open>\<open>s.slice(a, b)\<close> and \<open>s.slice(a)\<close> for indices \<open>0 \<le> a\<close>, \<open>0 \<le> b\<close>.\<close>

definition slice :: "jsstr \<Rightarrow> int \<Rightarrow> int \<Rightarrow> jsstr" where
  "slice s a b = take (nat b - nat a) (drop (nat a) s)"

definition sliceFrom :: "jsstr \<Rightarrow> int \<Rightarrow> jsstr" where
  "sliceFrom s a = drop (nat a) s"

text \<open>\<open>s.includes(c)\<close> for a one-character needle.\<close>

definition includesChar :: "jsstr \<Rightarrow> nat \<Rightarrow> bool" where
  "includesChar s c = (c \<in> set s)"

text \<open>
  \<open>s.split(/[\n;]+/)\<close>: the pieces between maximal runs of newlines and semicolons. A
  run at the start or at the end of the string leaves an empty piece there, and the
  empty string splits into one empty piece.
\<close>

definition isCookieSeparator :: "nat \<Rightarrow> bool" where
  "isCookieSeparator c = (c = NEWLINE \<or> c = SEMICOLON)"

function splitFragments :: "jsstr \<Rightarrow> jsstr list" where
  "splitFragments [] = [[]]"
| "splitFragments (c # cs) =
     (if isCookieSeparator c then [] # splitFragments (dropWhile isCookieSeparator cs)
      else (case splitFragments cs of
              [] \<Rightarrow> [[c]]
            | f # fs \<Rightarrow> (c # f) # fs))"
  by pat_completeness auto
termination
  by (relation "measure length") (auto simp: less_Suc_eq_le length_dropWhile_le)

section \<open>Auth/Session Normalizer\<close>

text \<open>
  The platform keys are the keys of \<open>PLATFORM_CONFIGS\<close>; \<open>parsePlatform\<close> lets no other
  key reach the normalizer.
\<close>

datatype platform_key = Jimeng | Xyq

definition DEFAULT_PLATFORM_KEY :: platform_key where
  "DEFAULT_PLATFORM_KEY = Jimeng"

fun SESSION_TOKEN_COOKIE_KEYS :: "platform_key \<Rightarrow> jsstr list" where
  "SESSION_TOKEN_COOKIE_KEYS Jimeng =
     [js ''sessionid'', js ''sessionid_ss'', js ''sid_tt'',
      js ''sessionid_pippitcn_web'', js ''sessionid_ss_pippitcn_web'',
      js ''sid_tt_pippitcn_web'']"
| "SESSION_TOKEN_COOKIE_KEYS Xyq =
     [js ''sessionid_pippitcn_web'', js ''sessionid_ss_pippitcn_web'',
      js ''sid_tt_pippitcn_web'', js ''sessionid'', js ''sessionid_ss'', js ''sid_tt'']"

text \<open>
  One turn of the loop of \<open>parseCookieString\<close>: the key and the value of a fragment, or
  nothing when the fragment is skipped. The separator is the first \<open>=\<close>, or the first
  \<open>:\<close> when there is no \<open>=\<close> past index 0; both separators have length 1.
\<close>

definition cookieEntry :: "jsstr \<Rightarrow> (jsstr \<times> jsstr) option" where
  "cookieEntry rawFragment =
     (let fragment = trim rawFragment in
      if fragment = [] then None
      else
        let i0 = indexOf EQUALS fragment;
            separatorIndex = (if i0 \<le> 0 then indexOf COLON fragment else i0)
        in if separatorIndex \<le> 0 then None
           else
             let key = trim (slice fragment 0 separatorIndex);
                 val = trim (sliceFrom fragment (separatorIndex + 1))
             in if key \<noteq> [] \<and> val \<noteq> [] then Some (key, val) else None)"

text \<open>
  The cookie \<open>Map\<close> is an association list in insertion order; \<open>Map.set\<close> overwrites the
  value of a key already present in place and appends a new key, which is
  \<open>AList.update\<close>; \<open>Map.get\<close> is \<open>map_of\<close>.
\<close>

fun parseCookieLoop :: "jsstr list \<Rightarrow> (jsstr \<times> jsstr) list \<Rightarrow> (jsstr \<times> jsstr) list" where
  "parseCookieLoop [] cookieMap = cookieMap"
| "parseCookieLoop (rawFragment # rest) cookieMap =
     (case cookieEntry rawFragment of
        None \<Rightarrow> parseCookieLoop rest cookieMap
      | Some (key, val) \<Rightarrow> parseCookieLoop rest (AList.update key val cookieMap))"

definition parseCookieString :: "jsstr \<Rightarrow> (jsstr \<times> jsstr) list" where
  "parseCookieString rawCookie = parseCookieLoop (splitFragments rawCookie) []"

text \<open>
  The match of \<open>/^[a-zA-Z0-9_]+:(.+)$/\<close> (no flags): the capture group, or nothing. The
  class is greedy and never matches a colon, so the colon of the pattern is the code
  unit right after the longest run of class members at the start; \<open>.\<close> matches every
  code unit but the line terminators LF, CR, U+2028 and U+2029, and \<open>$\<close> is the end of
  the input.
\<close>

definition isWordChar :: "nat \<Rightarrow> bool" where
  "isWordChar c =
     ((97 \<le> c \<and> c \<le> 122) \<or> (65 \<le> c \<and> c \<le> 90) \<or> (48 \<le> c \<and> c \<le> 57) \<or> c = 95)"

definition isLineTerminator :: "nat \<Rightarrow> bool" where
  "isLineTerminator c = (c \<in> set [10, 13, 8232, 8233])"

definition colonMatch :: "jsstr \<Rightarrow> jsstr option" where
  "colonMatch s =
     (let name = takeWhile isWordChar s; rest = dropWhile isWordChar s in
      case rest of
        [] \<Rightarrow> None
      | c # grp \<Rightarrow>
          if name \<noteq> [] \<and> c = COLON \<and> grp \<noteq> [] \<and> \<not> list_ex isLineTerminator grp
          then Some grp else None)"

text \<open>The loop over the candidate keys: the first key with a (non-empty) value.\<close>

fun firstCandidate :: "(jsstr \<times> jsstr) list \<Rightarrow> jsstr list \<Rightarrow> jsstr option" where
  "firstCandidate cookieMap [] = None"
| "firstCandidate cookieMap (cookieKey # rest) =
     (case map_of cookieMap cookieKey of
        Some token \<Rightarrow> if token \<noteq> [] then Some token else firstCandidate cookieMap rest
      | None \<Rightarrow> firstCandidate cookieMap rest)"

text \<open>
  \<open>normalizeSessionInput\<close> on a string input (a non-string input returns the empty
  string before anything else happens). \<open>fromCookies\<close> is the part after the test for
  \<open>=\<close>.
\<close>

definition fromCookies :: "platform_key \<Rightarrow> jsstr \<Rightarrow> jsstr" where
  "fromCookies platformKey trimmed =
     (let cookieMap = parseCookieString trimmed;
          candidateKeys = SESSION_TOKEN_COOKIE_KEYS platformKey
      in case firstCandidate cookieMap candidateKeys of
           Some token \<Rightarrow> token
         | None \<Rightarrow>
             if \<not> includesChar trimmed SEMICOLON then
               (let separatorIndex = indexOf EQUALS trimmed in
                if separatorIndex > 0 then
                  (let val = trim (sliceFrom trimmed (separatorIndex + 1)) in
                   if val \<noteq> [] then val else [])
                else [])
             else [])"

definition normalizeSessionInput :: "platform_key \<Rightarrow> jsstr \<Rightarrow> jsstr" where
  "normalizeSessionInput platformKey rawInput =
     (let trimmed = trim rawInput in
      if trimmed = [] then []
      else
        (case colonMatch trimmed of
           Some grp \<Rightarrow> trim grp
         | None \<Rightarrow>
             if \<not> includesChar trimmed EQUALS then trimmed
             else fromCookies platformKey trimmed))"

section \<open>Platform Request Client\<close>

text \<open>
  \<open>s.includes(needle)\<close> (here \<open>stringIncludes\<close>) and \<open>s.toLowerCase()\<close>. The case
  mapping is the one of the letters A to Z; every other code unit is left as it is. The
  needles searched for in
  a lower-cased string below (\<open>text/html\<close>, \<open><!doctype html\<close>, \<open><html\<close>, \<open>login\<close>,
  \<open>has been closed\<close>, \<open>target closed\<close>) are made of ASCII code units that the Unicode
  mapping of a code unit outside A to Z does not produce in their place.
\<close>

fun startsWith :: "jsstr \<Rightarrow> jsstr \<Rightarrow> bool" where
  "startsWith s [] = True"
| "startsWith [] (n # ns) = False"
| "startsWith (c # cs) (n # ns) = (c = n \<and> startsWith cs ns)"

fun stringIncludes :: "jsstr \<Rightarrow> jsstr \<Rightarrow> bool" where
  "stringIncludes [] needle = (needle = [])"
| "stringIncludes (c # cs) needle = (startsWith (c # cs) needle \<or> stringIncludes cs needle)"

definition toLowerCase :: "jsstr \<Rightarrow> jsstr" where
  "toLowerCase s = map (\<lambda>c. if 65 \<le> c \<and> c \<le> 90 then c + 32 else c) s"

text \<open>\<open>String(n)\<close> for an integer \<open>n\<close>: its decimal digits, with a minus sign below zero.\<close>

fun digitsOf :: "nat \<Rightarrow> jsstr" where
  "digitsOf n = (if n < 10 then [48 + n] else digitsOf (n div 10) @ [48 + n mod 10])"

declare digitsOf.simps [simp del]

definition numberToString :: "int \<Rightarrow> jsstr" where
  "numberToString n = (if n < 0 then 45 # digitsOf (nat (- n)) else digitsOf (nat n))"

text \<open>\<open>text.replace(/\s+/g, ' ')\<close>: every maximal run of whitespace becomes one space.\<close>

function collapseWhiteSpace :: "jsstr \<Rightarrow> jsstr" where
  "collapseWhiteSpace [] = []"
| "collapseWhiteSpace (c # cs) =
     (if isWhiteSpace c then 32 # collapseWhiteSpace (dropWhile isWhiteSpace cs)
      else c # collapseWhiteSpace cs)"
  by pat_completeness auto
termination
  by (relation "measure length") (auto simp: less_Suc_eq_le length_dropWhile_le)

definition previewResponseBody :: "jsstr \<Rightarrow> jsstr" where
  "previewResponseBody responseText = slice (trim (collapseWhiteSpace responseText)) 0 120"

definition looksLikeHtml :: "jsstr \<Rightarrow> jsstr \<Rightarrow> bool" where
  "looksLikeHtml responseText contentType =
     (let normalizedType = toLowerCase contentType in
      if stringIncludes normalizedType (js ''text/html'') then True
      else
        let normalizedBody = toLowerCase (slice responseText 0 200) in
        stringIncludes normalizedBody (js ''<!doctype html'') \<or>
        stringIncludes normalizedBody (js ''<html''))"

text \<open>
  What \<open>platformRequest\<close> throws, or catches from \<open>fetch\<close>. The messages of the source
  are left out; what they are built from is kept. \<open>isApiError\<close> is the property of that
  name: the source sets it on four of the errors it throws, not on the error for
  \<open>ret = 5000\<close>, and an error thrown by \<open>fetch\<close>, by \<open>response.text()\<close> or by reading
  \<open>ret\<close> off a \<open>null\<close> body does not have it.
\<close>

datatype request_error =
    TransportFailure jsstr
  | NullBodyTypeError
  | AuthInvalid platform_key
  | NonJsonResponse int jsstr
  | LoginCheckFailed platform_key
  | InsufficientCredits platform_key
  | ApiFailure platform_key jsstr jsstr

fun isApiError :: "request_error \<Rightarrow> bool" where
  "isApiError (TransportFailure message) = False"
| "isApiError NullBodyTypeError = False"
| "isApiError (AuthInvalid platformKey) = True"
| "isApiError (NonJsonResponse httpStatus preview) = True"
| "isApiError (LoginCheckFailed platformKey) = True"
| "isApiError (InsufficientCredits platformKey) = False"
| "isApiError (ApiFailure platformKey retCode errMsg) = True"

text \<open>
  The body of a response after \<open>JSON.parse\<close>, as far as \<open>platformRequest\<close> looks at it:
  not JSON at all; \<open>null\<close>; a value whose \<open>ret\<close> is missing or is not a finite number,
  which is returned whole; or an object with an integer \<open>ret\<close>, its \<open>errmsg\<close> (a string,
  if there is one) and its \<open>data\<close>. \<open>JSON.parse\<close> belongs to the runtime and is a
  parameter \<open>parse\<close> of the model.
\<close>

datatype 'a parsed_body =
    NotJson
  | JsonNull
  | JsonWithoutRet 'a
  | JsonWithRet int "jsstr option" 'a

text \<open>
  One HTTP attempt, as the network decides it: \<open>fetch\<close> or \<open>response.text()\<close> rejects
  with a message (timeout, connection reset), or there is a response with a status, a
  content type and a body text.
\<close>

datatype http_attempt =
    Rejects jsstr
  | Responds int jsstr jsstr

text \<open>The body of the \<open>try\<close> block after the optional sleep: one attempt, classified.\<close>

definition tryAttempt ::
    "(jsstr \<Rightarrow> 'a parsed_body) \<Rightarrow> platform_key \<Rightarrow> http_attempt \<Rightarrow> request_error + 'a" where
  "tryAttempt parse platformKey outcome =
     (case outcome of
        Rejects message \<Rightarrow> Inl (TransportFailure message)
      | Responds httpStatus contentType responseText \<Rightarrow>
          (case parse responseText of
             NotJson \<Rightarrow>
               if looksLikeHtml responseText contentType then Inl (AuthInvalid platformKey)
               else Inl (NonJsonResponse httpStatus (previewResponseBody responseText))
           | JsonNull \<Rightarrow> Inl NullBodyTypeError
           | JsonWithoutRet whole \<Rightarrow> Inr whole
           | JsonWithRet ret errmsg payload \<Rightarrow>
               if numberToString ret = js ''0'' then Inr payload
               else
                 let errMsg = (case errmsg of
                                 Some m \<Rightarrow> if m \<noteq> [] then m else numberToString ret
                               | None \<Rightarrow> numberToString ret);
                     retCode = numberToString ret
                 in if retCode = js ''1015'' \<and> stringIncludes (toLowerCase errMsg) (js ''login'')
                    then Inl (LoginCheckFailed platformKey)
                    else if retCode = js ''5000'' then Inl (InsufficientCredits platformKey)
                    else Inl (ApiFailure platformKey retCode errMsg)))"

text \<open>
  The retry loop \<open>for (let attempt = 0; attempt <= 3; attempt++)\<close>, with what it does to
  the outside world: it sleeps \<open>1000 * attempt\<close> milliseconds before every attempt but
  the first, and makes one HTTP call per attempt. \<open>net attempt\<close> is what the call of
  that attempt meets. Falling out of the loop would return \<open>undefined\<close>.
\<close>

datatype request_effect = Sleep nat | HttpCall nat

datatype 'a returned = Returned 'a | ReturnedUndefined

function attemptLoop ::
    "(jsstr \<Rightarrow> 'a parsed_body) \<Rightarrow> (nat \<Rightarrow> http_attempt) \<Rightarrow> platform_key \<Rightarrow> nat
       \<Rightarrow> (request_error + 'a returned) \<times> request_effect list" where
  "attemptLoop parse net platformKey attempt =
     (if attempt \<le> 3 then
        (let before = (if attempt > 0 then [Sleep (1000 * attempt)] else []) @ [HttpCall attempt]
         in case tryAttempt parse platformKey (net attempt) of
              Inr answer \<Rightarrow> (Inr (Returned answer), before)
            | Inl err \<Rightarrow>
                if isApiError err then (Inl err, before)
                else if attempt = 3 then (Inl err, before)
                else (case attemptLoop parse net platformKey (attempt + 1) of
                        (outcome, effects) \<Rightarrow> (outcome, before @ effects)))
      else (Inr ReturnedUndefined, []))"
  by pat_completeness auto
termination
  by (relation "measure (\<lambda>(parse, net, platformKey, attempt). 4 - attempt)") auto

declare attemptLoop.simps [simp del]

text \<open>
  \<open>platformRequest\<close>: the URL, the headers, the cookie and the signature are built once
  before the loop and are the same in every attempt; the model is the loop.
\<close>

definition platformRequest ::
    "(jsstr \<Rightarrow> 'a parsed_body) \<Rightarrow> (nat \<Rightarrow> http_attempt) \<Rightarrow> platform_key
       \<Rightarrow> (request_error + 'a returned) \<times> request_effect list" where
  "platformRequest parse net platformKey = attemptLoop parse net platformKey 0"

section \<open>Task Registry\<close>

text \<open>
  A job of the registry (\<open>taskId\<close> is its field \<open>id\<close>). \<open>status\<close> only ever holds one
  of the three strings \<open>processing\<close>, \<open>done\<close> and \<open>error\<close>; \<open>result\<close> and \<open>error\<close> are
  \<open>null\<close> until the generation ends. Times are milliseconds, as \<open>Date.now()\<close> gives
  them.
\<close>

datatype task_status = Processing | Done | Failed

record video_result =
  created :: int
  video_url :: jsstr
  revised_prompt :: jsstr

record task =
  taskId :: jsstr
  platform :: platform_key
  status :: task_status
  progress :: jsstr
  startTime :: int
  result :: "video_result option"
  error :: "jsstr option"

text \<open>
  The state of the registry: the \<open>tasks\<close> map (in insertion order), \<open>taskCounter\<close>, and
  the callbacks handed to \<open>setTimeout\<close> that have not run yet, each with the time at
  which it is due and the id it deletes.
\<close>

record registry =
  tasks :: "(jsstr \<times> task) list"
  taskCounter :: nat
  timers :: "(int \<times> jsstr) list"

definition createTaskId :: "int \<Rightarrow> registry \<Rightarrow> jsstr \<times> registry" where
  "createTaskId now reg =
     (js ''task_'' @ numberToString (int (taskCounter reg + 1)) @ js ''_'' @ numberToString now,
      reg\<lparr>taskCounter := taskCounter reg + 1\<rparr>)"

text \<open>
  The part of \<open>POST /api/generate-video\<close> that creates the job: \<open>startTime\<close> is the time
  at which the handler started, \<open>now\<close> the time at which the id is made. The first
  progress message is a literal of seven code units (four CJK characters and three
  dots).
\<close>

definition submitTask :: "platform_key \<Rightarrow> int \<Rightarrow> int \<Rightarrow> registry \<Rightarrow> jsstr \<times> registry" where
  "submitTask platformKey startedAt now reg =
     (case createTaskId now reg of
        (newId, reg') \<Rightarrow>
          (newId,
           reg'\<lparr>tasks := AList.update newId
              \<lparr>taskId = newId, platform = platformKey, status = Processing,
               progress = [27491, 22312, 20934, 22791, 46, 46, 46],
               startTime = startedAt, result = None, error = None\<rparr>
              (tasks reg')\<rparr>))"

text \<open>
  The periodic sweep, the callback of \<open>setInterval(..., 60000)\<close>: every entry older than
  30 minutes is deleted.
\<close>

definition sweepTasks :: "int \<Rightarrow> registry \<Rightarrow> registry" where
  "sweepTasks now reg =
     reg\<lparr>tasks :=
       fold (\<lambda>(entryId, entry) m.
               if now - startTime entry > 30 * 60 * 1000 then AList.delete entryId m else m)
            (tasks reg) (tasks reg)\<rparr>"

text \<open>
  \<open>GET /api/task/:taskId\<close>. The answer is a 404 or one of three JSON bodies; a job seen
  done or failed gets a callback that deletes \<open>task.id\<close>, due 300000 ms later.
\<close>

datatype poll_response =
    NotFound404
  | PollDone int "video_result option"
  | PollError int "jsstr option"
  | PollProcessing int jsstr

definition pollTask :: "jsstr \<Rightarrow> int \<Rightarrow> registry \<Rightarrow> poll_response \<times> registry" where
  "pollTask requestedId now reg =
     (case map_of (tasks reg) requestedId of
        None \<Rightarrow> (NotFound404, reg)
      | Some t \<Rightarrow>
          (let elapsed = (now - startTime t) div 1000 in
           if status t = Done then
             (PollDone elapsed (result t),
              reg\<lparr>timers := timers reg @ [(now + 300000, taskId t)]\<rparr>)
           else if status t = Failed then
             (PollError elapsed (error t),
              reg\<lparr>timers := timers reg @ [(now + 300000, taskId t)]\<rparr>)
           else (PollProcessing elapsed (progress t), reg)))"

text \<open>The event loop at time \<open>now\<close>: every callback that is due runs and is gone.\<close>

definition runDueTimers :: "int \<Rightarrow> registry \<Rightarrow> registry" where
  "runDueTimers now reg =
     reg\<lparr>tasks := fold (\<lambda>(due, target) m. if due \<le> now then AList.delete target m else m)
                      (timers reg) (tasks reg),
         timers := filter (\<lambda>(due, target). \<not> due \<le> now) (timers reg)\<rparr>"

text \<open>
  The wall-clock limit of a generation. \<open>configured\<close> is the environment variable
  \<open>VIDEO_GENERATION_TIMEOUT_MS\<close> as a number, \<open>None\<close> when it is unset or not a finite
  number. The polling loop of the direct-model flow goes on while the job is still
  queued or running (status 20), the retry budget lasts and the limit is not reached;
  it reads the job's \<open>startTime\<close> and never looks the job up in the registry again.
\<close>

definition VIDEO_GENERATION_TIMEOUT_MS :: "int option \<Rightarrow> int" where
  "VIDEO_GENERATION_TIMEOUT_MS configured =
     (case configured of
        Some configuredTimeoutMs \<Rightarrow>
          if configuredTimeoutMs > 0 then configuredTimeoutMs else 45 * 60 * 1000
      | None \<Rightarrow> 45 * 60 * 1000)"

definition maxRetries :: "int option \<Rightarrow> int" where
  "maxRetries configured = max 60 (- ((- VIDEO_GENERATION_TIMEOUT_MS configured) div 2000))"

definition pollingContinues :: "int option \<Rightarrow> int \<Rightarrow> int \<Rightarrow> task \<Rightarrow> int \<Rightarrow> bool" where
  "pollingContinues configured retryCount vendorStatus t now =
     (retryCount < maxRetries configured \<and> vendorStatus = 20 \<and>
      \<not> (now - startTime t \<ge> VIDEO_GENERATION_TIMEOUT_MS configured))"

text \<open>
  Every entry of the registry is stored under its own id: \<open>submitTask\<close> is the only
  place that adds an entry, and nothing assigns \<open>task.id\<close> afterwards.
\<close>

definition storedUnderOwnId :: "registry \<Rightarrow> bool" where
  "storedUnderOwnId reg = list_all (\<lambda>(k, t). taskId t = k) (tasks reg)"

section \<open>Browser Session Pool\<close>

text \<open>
  The state of \<open>BrowserService\<close>: the handle of the shared browser process (\<open>null\<close>
  when there is none), the cached sessions by cache key, and the lock table
  \<open>sessionLocks\<close>, which holds for a key the promise \<open>run\<close> of the operation queued
  last (promises are numbered). A session holds its browser context and page (handles),
  the platform key, the session id and the time of its last use; its display name and
  its idle timer are left out.
\<close>

record browser_session =
  sessContext :: nat
  sessPage :: nat
  sessPlatformKey :: platform_key
  sessSessionId :: jsstr
  sessLastUsed :: int

record pool =
  browser :: "nat option"
  sessions :: "(jsstr \<times> browser_session) list"
  sessionLocks :: "(jsstr \<times> nat) list"

definition platformKeyName :: "platform_key \<Rightarrow> jsstr" where
  "platformKeyName platformKey = (case platformKey of Jimeng \<Rightarrow> js ''jimeng'' | Xyq \<Rightarrow> js ''xyq'')"

definition getSessionCacheKey :: "jsstr \<Rightarrow> platform_key \<Rightarrow> jsstr \<Rightarrow> jsstr" where
  "getSessionCacheKey sessionId platformKey rawCookieHeader =
     platformKeyName platformKey @ js '':'' @ sessionId @ js ''|'' @ rawCookieHeader"

definition TARGET_CLOSED_PATTERNS :: "jsstr list" where
  "TARGET_CLOSED_PATTERNS =
     [js ''has been closed'', js ''target closed'', js ''browser has been closed'',
      js ''context or browser has been closed'']"

text \<open>
  \<open>isTargetClosedError\<close>, on the message of the error (an error without a message
  counts as one with the empty message).
\<close>

definition isTargetClosedError :: "jsstr \<Rightarrow> bool" where
  "isTargetClosedError errorMessage =
     (let message = toLowerCase errorMessage in
      list_ex (\<lambda>pattern. stringIncludes message pattern) TARGET_CLOSED_PATTERNS)"

text \<open>
  \<open>recreateBrowser\<close>: the handle and every cached session are dropped (\<open>resetAllSessions\<close>
  also clears the idle timers of the sessions), then the old browser is closed and a
  failure of that is ignored. The new browser is launched by the next \<open>getSession\<close>.
\<close>

definition resetAllSessions :: "pool \<Rightarrow> pool" where
  "resetAllSessions p = p\<lparr>sessions := []\<rparr>"

definition recreateBrowser :: "pool \<Rightarrow> pool" where
  "recreateBrowser p = resetAllSessions (p\<lparr>browser := None\<rparr>)"

text \<open>
  What \<open>fetch\<close> throws: an error passed on as it was caught, with its message; the
  error that replaces a \<open>Failed to fetch\<close>; the two errors for a body that is not JSON;
  and the error after the loop.
\<close>

datatype fetch_error =
    Thrown jsstr
  | RequestFailed platform_key
  | AuthInvalidInBrowser platform_key
  | NonJsonInBrowser int jsstr
  | ProxyRequestFailed

datatype raw_result = RawResult bool int jsstr jsstr

datatype pool_event = GetSession | Evaluate nat | RecreateBrowser "nat option"

definition looksLikeHtmlResponse :: "jsstr \<Rightarrow> jsstr \<Rightarrow> bool" where
  "looksLikeHtmlResponse contentType text =
     (let normalizedType = toLowerCase contentType in
      if stringIncludes normalizedType (js ''text/html'') then True
      else
        let normalizedBody = toLowerCase (slice text 0 200) in
        stringIncludes normalizedBody (js ''<!doctype html'') \<or>
        stringIncludes normalizedBody (js ''<html''))"

definition previewBody :: "jsstr \<Rightarrow> jsstr" where
  "previewBody text = slice (trim (collapseWhiteSpace text)) 0 120"

text \<open>
  The function that \<open>fetch\<close> runs under the lock of its key: the loop
  \<open>for (let attempt = 0; attempt < 2; attempt++)\<close>. \<open>getSession\<close> is the pool's operation
  of that name for the arguments of the call: it returns a session or throws, and may
  change the pool. \<open>evaluate attempt session\<close> is what \<open>session.page.evaluate\<close> meets in
  that attempt: the raw result of the in-page request, or the message of the error
  thrown. \<open>parse\<close> is \<open>JSON.parse\<close>, \<open>None\<close> when it throws. The result comes with the
  pool as the call leaves it and with what the call did, in order.
\<close>

function fetchLoop ::
    "(pool \<Rightarrow> (fetch_error + browser_session) \<times> pool) \<Rightarrow>
     (nat \<Rightarrow> browser_session \<Rightarrow> jsstr + raw_result) \<Rightarrow> (jsstr \<Rightarrow> 'a option) \<Rightarrow>
     platform_key \<Rightarrow> nat \<Rightarrow> pool \<Rightarrow> (fetch_error + 'a) \<times> pool \<times> pool_event list" where
  "fetchLoop getSession evaluate parse platformKey attempt p =
     (if attempt < 2 then
        (case getSession p of
           (Inl thrown, p1) \<Rightarrow> (Inl thrown, p1, [GetSession])
         | (Inr session, p1) \<Rightarrow>
             (case evaluate attempt session of
                Inl errorMessage \<Rightarrow>
                  (let message = (if errorMessage \<noteq> [] then errorMessage
                                  else js ''unknown error'')
                   in if stringIncludes message (js ''Failed to fetch'')
                      then (Inl (RequestFailed platformKey), p1, [GetSession, Evaluate attempt])
                      else if attempt = 0 \<and> isTargetClosedError errorMessage
                      then (case fetchLoop getSession evaluate parse platformKey (attempt + 1)
                                   (recreateBrowser p1) of
                              (outcome, p2, events) \<Rightarrow>
                                (outcome, p2,
                                 [GetSession, Evaluate attempt, RecreateBrowser (browser p1)]
                                   @ events))
                      else (Inl (Thrown errorMessage), p1, [GetSession, Evaluate attempt]))
              | Inr (RawResult ok httpStatus contentType responseBody) \<Rightarrow>
                  (case parse responseBody of
                     Some json \<Rightarrow> (Inr json, p1, [GetSession, Evaluate attempt])
                   | None \<Rightarrow>
                       if looksLikeHtmlResponse contentType responseBody
                       then (Inl (AuthInvalidInBrowser platformKey), p1,
                             [GetSession, Evaluate attempt])
                       else (Inl (NonJsonInBrowser httpStatus (previewBody responseBody)), p1,
                             [GetSession, Evaluate attempt]))))
      else (Inl ProxyRequestFailed, p, []))"
  by pat_completeness auto
termination
  by (relation "measure (\<lambda>(getSession, evaluate, parse, platformKey, attempt, p). 2 - attempt)")
     auto

declare fetchLoop.simps [simp del]

definition fetchUnderLock ::
    "(pool \<Rightarrow> (fetch_error + browser_session) \<times> pool) \<Rightarrow>
     (nat \<Rightarrow> browser_session \<Rightarrow> jsstr + raw_result) \<Rightarrow> (jsstr \<Rightarrow> 'a option) \<Rightarrow>
     platform_key \<Rightarrow> pool \<Rightarrow> (fetch_error + 'a) \<times> pool \<times> pool_event list" where
  "fetchUnderLock getSession evaluate parse platformKey p =
     fetchLoop getSession evaluate parse platformKey 0 p"

text \<open>
  The lock table. \<open>runWithSessionLock\<close> does three things to it. When it is called it
  reads the promise stored for the key (\<open>previous\<close>; without an entry the operation
  waits for nothing, \<open>Promise.resolve()\<close>), and stores its own promise \<open>run\<close>. The
  function of the operation starts once \<open>previous\<close> has settled. When \<open>run\<close> has settled,
  the \<open>finally\<close> block deletes the entry if it still holds \<open>run\<close>.
\<close>

definition lockEnqueue :: "jsstr \<Rightarrow> nat \<Rightarrow> pool \<Rightarrow> nat option \<times> pool" where
  "lockEnqueue cacheKey run p =
     (map_of (sessionLocks p) cacheKey,
      p\<lparr>sessionLocks := AList.update cacheKey run (sessionLocks p)\<rparr>)"

definition lockRelease :: "jsstr \<Rightarrow> nat \<Rightarrow> pool \<Rightarrow> pool" where
  "lockRelease cacheKey run p =
     (if map_of (sessionLocks p) cacheKey = Some run
      then p\<lparr>sessionLocks := AList.delete cacheKey (sessionLocks p)\<rparr> else p)"

text \<open>
  \<open>closeSessionByKey\<close>, which \<open>refreshSession\<close> calls first thing under the lock of the
  key (through \<open>closeSession\<close>) and which the idle timer of a session calls: without a
  cached session nothing happens; otherwise the context is closed, and the session and
  the entry of the key in the lock table are deleted.
\<close>

definition closeSessionByKey :: "jsstr \<Rightarrow> pool \<Rightarrow> pool" where
  "closeSessionByKey cacheKey p =
     (case map_of (sessions p) cacheKey of
        None \<Rightarrow> p
      | Some session \<Rightarrow>
          p\<lparr>sessions := AList.delete cacheKey (sessions p),
            sessionLocks := AList.delete cacheKey (sessionLocks p)\<rparr>)"

text \<open>
  Two stretches of \<open>getSession\<close> that touch the cache. At its start it looks the key
  up: a cached session whose page is closed is deleted, one whose page is open gets a
  new \<open>lastUsed\<close> and is returned (\<open>pageIsClosed\<close> is \<open>page.isClosed()\<close>). At the end of
  creating a session it stores the new session under the key.
\<close>

definition lookupCachedSession ::
    "(nat \<Rightarrow> bool) \<Rightarrow> jsstr \<Rightarrow> int \<Rightarrow> pool \<Rightarrow> browser_session option \<times> pool" where
  "lookupCachedSession pageIsClosed cacheKey now p =
     (case map_of (sessions p) cacheKey of
        None \<Rightarrow> (None, p)
      | Some existing \<Rightarrow>
          if pageIsClosed (sessPage existing)
          then (None, p\<lparr>sessions := AList.delete cacheKey (sessions p)\<rparr>)
          else (let used = existing\<lparr>sessLastUsed := now\<rparr>
                in (Some used, p\<lparr>sessions := AList.update cacheKey used (sessions p)\<rparr>)))"

definition storeSession :: "jsstr \<Rightarrow> browser_session \<Rightarrow> pool \<Rightarrow> pool" where
  "storeSession cacheKey session p =
     p\<lparr>sessions := AList.update cacheKey session (sessions p)\<rparr>"

section \<open>Signing Primitives\<close>

text \<open>
  The comparison \<open>a < b\<close> of two strings (by code units, a proper prefix first),
  \<open>Array.prototype.sort\<close> with a comparator that orders by a string key (the sort is
  stable), and \<open>parts.join(sep)\<close>.
\<close>

fun stringLess :: "jsstr \<Rightarrow> jsstr \<Rightarrow> bool" where
  "stringLess [] [] = False"
| "stringLess [] (y # ys) = True"
| "stringLess (x # xs) [] = False"
| "stringLess (x # xs) (y # ys) = (x < y \<or> (x = y \<and> stringLess xs ys))"

fun insertByKey :: "('a \<Rightarrow> jsstr) \<Rightarrow> 'a \<Rightarrow> 'a list \<Rightarrow> 'a list" where
  "insertByKey key x [] = [x]"
| "insertByKey key x (y # ys) =
     (if \<not> stringLess (key y) (key x) then x # y # ys else y # insertByKey key x ys)"

definition sortByKey :: "('a \<Rightarrow> jsstr) \<Rightarrow> 'a list \<Rightarrow> 'a list" where
  "sortByKey key xs = foldr (insertByKey key) xs []"

fun joinWith :: "jsstr \<Rightarrow> jsstr list \<Rightarrow> jsstr" where
  "joinWith sep [] = []"
| "joinWith sep [x] = x"
| "joinWith sep (x # y # ys) = x @ sep @ joinWith sep (y # ys)"

text \<open>
  What \<open>createAWSSignature\<close> takes from the runtime: the hex SHA-256 digest of a string,
  HMAC-SHA256 with a string key and with a buffer key (\<open>'d\<close> is the type of a digest
  buffer), the latter also with a hex result, the parser \<open>new URL(url)\<close>, which gives
  the path and the query parameters in order, or throws (\<open>None\<close>), and the Unicode
  upper-case mapping of a string that is not pure ASCII. Each digest is one of a string,
  which \<open>update\<close> encodes as UTF-8 before it is hashed.
\<close>

record 'd runtime =
  sha256Hex :: "jsstr \<Rightarrow> jsstr"
  hmacStringKey :: "jsstr \<Rightarrow> jsstr \<Rightarrow> 'd"
  hmacBufferKey :: "'d \<Rightarrow> jsstr \<Rightarrow> 'd"
  hmacBufferKeyHex :: "'d \<Rightarrow> jsstr \<Rightarrow> jsstr"
  parseUrl :: "jsstr \<Rightarrow> (jsstr \<times> (jsstr \<times> jsstr) list) option"
  upperCaseBeyondAscii :: "jsstr \<Rightarrow> jsstr"

text \<open>
  \<open>s.toUpperCase()\<close>. The mapping works code point by code point; on a string of ASCII
  code units it turns the letters a to z into A to Z and leaves the rest. A string
  with a code unit beyond ASCII is mapped by the runtime (U+017F, for one, becomes S).
\<close>

definition toUpperCase :: "'d runtime \<Rightarrow> jsstr \<Rightarrow> jsstr" where
  "toUpperCase rt s =
     (if list_all (\<lambda>c. c < 128) s
      then map (\<lambda>c. if 97 \<le> c \<and> c \<le> 122 then c - 32 else c) s
      else upperCaseBeyondAscii rt s)"

datatype signature_error = InvalidUrl | MissingAmzDate

text \<open>
  The local values of \<open>createAWSSignature\<close>, each under its name in the source and as
  a function of the arguments it is computed from. \<open>timestamp\<close> is the \<open>x-amz-date\<close>
  entry of \<open>headers\<close>, the only entry the function reads. An empty session token stands
  for every falsy one, an empty payload for the default. The three header names are
  lower-case ASCII, on which \<open>localeCompare\<close> orders as \<open>stringLess\<close> does.
\<close>

definition canonicalQueryString :: "(jsstr \<times> jsstr) list \<Rightarrow> jsstr" where
  "canonicalQueryString searchParams =
     (let queryParams = sortByKey fst searchParams
      in joinWith (js ''&'') (map (\<lambda>(k, v). k @ js ''='' @ v) queryParams))"

definition payloadIsHashed :: "'d runtime \<Rightarrow> jsstr \<Rightarrow> jsstr \<Rightarrow> bool" where
  "payloadIsHashed rt method payload = (toUpperCase rt method = js ''POST'' \<and> payload \<noteq> [])"

definition payloadHash :: "'d runtime \<Rightarrow> jsstr \<Rightarrow> jsstr \<Rightarrow> jsstr" where
  "payloadHash rt method payload =
     (if payloadIsHashed rt method payload then sha256Hex rt payload else sha256Hex rt [])"

definition headersToSign ::
    "'d runtime \<Rightarrow> jsstr \<Rightarrow> jsstr \<Rightarrow> jsstr \<Rightarrow> jsstr \<Rightarrow> (jsstr \<times> jsstr) list" where
  "headersToSign rt method timestamp sessionToken payload =
     [(js ''x-amz-date'', timestamp)]
     @ (if sessionToken \<noteq> [] then [(js ''x-amz-security-token'', sessionToken)] else [])
     @ (if payloadIsHashed rt method payload
        then [(js ''x-amz-content-sha256'', payloadHash rt method payload)] else [])"

definition signedHeaders :: "(jsstr \<times> jsstr) list \<Rightarrow> jsstr" where
  "signedHeaders toSign =
     joinWith (js '';'') (sortByKey (\<lambda>k. k) (map (\<lambda>(k, v). toLowerCase k) toSign))"

definition canonicalHeaders :: "(jsstr \<times> jsstr) list \<Rightarrow> jsstr" where
  "canonicalHeaders toSign =
     concat (map (\<lambda>(k, v). toLowerCase k @ js '':'' @ trim v @ [NEWLINE])
                 (sortByKey (\<lambda>(k, v). toLowerCase k) toSign))"

definition canonicalRequest ::
    "'d runtime \<Rightarrow> jsstr \<Rightarrow> jsstr \<Rightarrow> (jsstr \<times> jsstr) list \<Rightarrow> jsstr \<Rightarrow> jsstr \<Rightarrow> jsstr
       \<Rightarrow> jsstr" where
  "canonicalRequest rt method urlPathname searchParams timestamp sessionToken payload =
     (let pathname = (if urlPathname \<noteq> [] then urlPathname else js ''/'');
          toSign = headersToSign rt method timestamp sessionToken payload
      in joinWith [NEWLINE]
           [toUpperCase rt method, pathname, canonicalQueryString searchParams,
            canonicalHeaders toSign, signedHeaders toSign, payloadHash rt method payload])"

definition credentialScope :: "jsstr \<Rightarrow> jsstr" where
  "credentialScope timestamp =
     (let date = slice timestamp 0 8; region = js ''cn-north-1''; service = js ''imagex''
      in date @ js ''/'' @ region @ js ''/'' @ service @ js ''/aws4_request'')"

definition stringToSign ::
    "'d runtime \<Rightarrow> jsstr \<Rightarrow> jsstr \<Rightarrow> (jsstr \<times> jsstr) list \<Rightarrow> jsstr \<Rightarrow> jsstr \<Rightarrow> jsstr
       \<Rightarrow> jsstr" where
  "stringToSign rt method urlPathname searchParams timestamp sessionToken payload =
     joinWith [NEWLINE]
       [js ''AWS4-HMAC-SHA256'', timestamp, credentialScope timestamp,
        sha256Hex rt
          (canonicalRequest rt method urlPathname searchParams timestamp sessionToken payload)]"

definition kSigning :: "'d runtime \<Rightarrow> jsstr \<Rightarrow> jsstr \<Rightarrow> 'd" where
  "kSigning rt secretAccessKey timestamp =
     (let date = slice timestamp 0 8; region = js ''cn-north-1''; service = js ''imagex'';
          kDate = hmacStringKey rt (js ''AWS4'' @ secretAccessKey) date;
          kRegion = hmacBufferKey rt kDate region;
          kService = hmacBufferKey rt kRegion service
      in hmacBufferKey rt kService (js ''aws4_request''))"

definition signature ::
    "'d runtime \<Rightarrow> jsstr \<Rightarrow> jsstr \<Rightarrow> (jsstr \<times> jsstr) list \<Rightarrow> jsstr \<Rightarrow> jsstr \<Rightarrow> jsstr
       \<Rightarrow> jsstr \<Rightarrow> jsstr" where
  "signature rt method urlPathname searchParams secretAccessKey timestamp sessionToken payload =
     hmacBufferKeyHex rt (kSigning rt secretAccessKey timestamp)
       (stringToSign rt method urlPathname searchParams timestamp sessionToken payload)"

text \<open>
  \<open>createAWSSignature\<close>. The function reads no clock and no random number. It throws
  when the URL does not parse and when \<open>headers\<close> has no \<open>x-amz-date\<close>.
\<close>

definition createAWSSignature ::
    "'d runtime \<Rightarrow> jsstr \<Rightarrow> jsstr \<Rightarrow> (jsstr \<times> jsstr) list \<Rightarrow> jsstr \<Rightarrow> jsstr \<Rightarrow> jsstr \<Rightarrow> jsstr
       \<Rightarrow> signature_error + jsstr" where
  "createAWSSignature rt method url headers accessKeyId secretAccessKey sessionToken payload =
     (case parseUrl rt url of
        None \<Rightarrow> Inl InvalidUrl
      | Some (urlPathname, searchParams) \<Rightarrow>
          (case map_of headers (js ''x-amz-date'') of
             None \<Rightarrow> Inl MissingAmzDate
           | Some timestamp \<Rightarrow>
               Inr (js ''AWS4-HMAC-SHA256 Credential='' @ accessKeyId @ js ''/''
                    @ credentialScope timestamp
                    @ js '', SignedHeaders=''
                    @ signedHeaders (headersToSign rt method timestamp sessionToken payload)
                    @ js '', Signature=''
                    @ signature rt method urlPathname searchParams secretAccessKey
                        timestamp sessionToken payload)))"

text \<open>
  \<open>separates f x y\<close>: the function \<open>f\<close> does not send two different arguments \<open>x\<close> and
  \<open>y\<close> to one value, that is, \<open>x\<close> and \<open>y\<close> are not a collision of \<open>f\<close>.
\<close>

definition separates :: "('a \<Rightarrow> 'b) \<Rightarrow> 'a \<Rightarrow> 'a \<Rightarrow> bool" where
  "separates f x y = (x \<noteq> y \<longrightarrow> f x \<noteq> f y)"

text \<open>
  \<open>digestsSeparate\<close>: on the values of two calls that differ at most in the
  \<open>x-amz-date\<close> value, the session token and the payload, SHA-256 and HMAC-SHA256
  behave as digests are meant to. The two payloads are not a collision of SHA-256 and
  neither are the two canonical requests, the two pairs of signing key and string to
  sign are not a collision of HMAC-SHA256, and the two digests have the same length
  each time (a hex SHA-256 digest has 64 characters).
\<close>

definition digestsSeparate ::
    "'d runtime \<Rightarrow> jsstr \<Rightarrow> jsstr \<Rightarrow> (jsstr \<times> jsstr) list \<Rightarrow> jsstr
       \<Rightarrow> jsstr \<Rightarrow> jsstr \<Rightarrow> jsstr \<Rightarrow> jsstr \<Rightarrow> jsstr \<Rightarrow> jsstr \<Rightarrow> bool" where
  "digestsSeparate rt method urlPathname searchParams secretAccessKey
       timestamp sessionToken payload timestamp' sessionToken' payload' =
     (let request = canonicalRequest rt method urlPathname searchParams
                      timestamp sessionToken payload;
          request' = canonicalRequest rt method urlPathname searchParams
                       timestamp' sessionToken' payload';
          toSign = stringToSign rt method urlPathname searchParams
                     timestamp sessionToken payload;
          toSign' = stringToSign rt method urlPathname searchParams
                      timestamp' sessionToken' payload';
          key = kSigning rt secretAccessKey timestamp;
          key' = kSigning rt secretAccessKey timestamp'
      in separates (sha256Hex rt) payload payload'
         \<and> length (sha256Hex rt payload) = length (sha256Hex rt payload')
         \<and> separates (sha256Hex rt) request request'
         \<and> length (sha256Hex rt request) = length (sha256Hex rt request')
         \<and> separates (\<lambda>(k, m). hmacBufferKeyHex rt k m) (key, toSign) (key', toSign')
         \<and> length (hmacBufferKeyHex rt key toSign) = length (hmacBufferKeyHex rt key' toSign'))"

text \<open>
  The line of the canonical headers for the payload digest and the one for the session
  token, each empty when the header is not signed.
\<close>

definition hashLine :: "'d runtime \<Rightarrow> jsstr \<Rightarrow> jsstr \<Rightarrow> jsstr" where
  "hashLine rt method payload =
     (if payloadIsHashed rt method payload
      then js ''x-amz-content-sha256'' @ js '':'' @ trim (payloadHash rt method payload) @ [NEWLINE]
      else [])"

definition tokenLine :: "jsstr \<Rightarrow> jsstr" where
  "tokenLine sessionToken =
     (if sessionToken \<noteq> []
      then js ''x-amz-security-token'' @ js '':'' @ trim sessionToken @ [NEWLINE] else [])"

text \<open>
  A runtime for worked examples: every digest keeps its argument whole (the keyed ones
  put the key in front), so that no two arguments collide, and the URL parser knows one
  URL.
\<close>

definition exampleRuntime :: "jsstr runtime" where
  "exampleRuntime =
     \<lparr>sha256Hex = (\<lambda>s. s),
      hmacStringKey = (\<lambda>k m. k @ m),
      hmacBufferKey = (\<lambda>k m. k @ m),
      hmacBufferKeyHex = (\<lambda>k m. k @ m),
      parseUrl = (\<lambda>u. if u = js ''https://imagex.bytedanceapi.com/?Action=CommitImageUpload''
                       then Some (js ''/'', [(js ''Action'', js ''CommitImageUpload'')])
                       else None),
      upperCaseBeyondAscii = (\<lambda>s. s)\<rparr>"

text \<open>
  The entries the loop of \<open>parseCookieString\<close> stores, in the order of the fragments
  (used to reason about the loop).
\<close>

definition entries :: "jsstr \<Rightarrow> (jsstr \<times> jsstr) list" where
  "entries s = List.map_filter cookieEntry (splitFragments s)"

section \<open>Properties of the Auth/Session Normalizer\<close>

lemmas normalizer_eval =
  js_def trim_def isWhiteSpace_def colonMatch_def isWordChar_def COLON_def EQUALS_def
  SEMICOLON_def NEWLINE_def isLineTerminator_def isCookieSeparator_def
  normalizeSessionInput_def fromCookies_def parseCookieString_def cookieEntry_def
  slice_def sliceFrom_def includesChar_def Let_def

subsection \<open>Trimming\<close>

lemma trim_Nil: "trim [] = []"
  by (simp add: trim_def)

lemma trim_Cons_ws: "isWhiteSpace c \<Longrightarrow> trim (c # f) = trim f"
  by (simp add: trim_def)

lemma trim_snoc_ws: "isWhiteSpace c \<Longrightarrow> trim (f @ [c]) = trim f"
proof (cases "\<forall>x\<in>set f. isWhiteSpace x")
  case True
  assume "isWhiteSpace c"
  with True have "dropWhile isWhiteSpace (f @ [c]) = []" "dropWhile isWhiteSpace f = []"
    by auto
  then show ?thesis by (simp only: trim_def)
next
  case False
  assume "isWhiteSpace c"
  with False show ?thesis by (auto simp: trim_def dropWhile_append)
qed

lemma trim_fixed:
  assumes "s \<noteq> []" "\<not> isWhiteSpace (hd s)" "\<not> isWhiteSpace (last s)"
  shows "trim s = s"
proof -
  from assms have a: "dropWhile isWhiteSpace s = s" by (cases s) auto
  from assms have b: "dropWhile isWhiteSpace (rev s) = rev s"
    by (cases "rev s") (auto simp: last_rev[symmetric] hd_rev)
  show ?thesis by (simp add: trim_def a b)
qed

lemma trim_ends:
  assumes "trim s \<noteq> []"
  shows "\<not> isWhiteSpace (hd (trim s)) \<and> \<not> isWhiteSpace (last (trim s))"
proof -
  define u where "u = dropWhile isWhiteSpace s"
  define v where "v = dropWhile isWhiteSpace (rev u)"
  have t: "trim s = rev v" by (simp add: trim_def u_def v_def)
  with assms have vne: "v \<noteq> []" by simp
  have hv: "\<not> isWhiteSpace (hd v)" using vne unfolding v_def by (simp add: hd_dropWhile)
  obtain w where w: "rev u = w @ v" unfolding v_def
    by (metis takeWhile_dropWhile_id)
  then have u: "u = rev v @ rev w" by (metis rev_append rev_rev_ident)
  have une: "u \<noteq> []" using vne u by simp
  have hu: "\<not> isWhiteSpace (hd u)" using une unfolding u_def by (simp add: hd_dropWhile)
  have "hd u = hd (rev v)" using u vne by simp
  with hu hv vne show ?thesis by (simp add: t last_rev)
qed

lemma trim_idem: "trim (trim s) = trim s"
proof (cases "trim s = []")
  case True
  then show ?thesis by (simp add: trim_Nil)
next
  case False
  with trim_ends[OF False] show ?thesis by (intro trim_fixed) auto
qed

lemma set_trim_subset: "set (trim s) \<subseteq> set s"
  unfolding trim_def by (metis set_rev set_dropWhileD subsetI)

lemma in_set_dropWhile: "x \<in> set s \<Longrightarrow> \<not> P x \<Longrightarrow> x \<in> set (dropWhile P s)"
  by (induction s) auto

lemma in_set_trim: "x \<in> set s \<Longrightarrow> \<not> isWhiteSpace x \<Longrightarrow> x \<in> set (trim s)"
  unfolding trim_def by (simp add: in_set_dropWhile)

subsection \<open>The cookie parser ignores surrounding whitespace\<close>

lemma cookieEntry_cong: "trim f = trim g \<Longrightarrow> cookieEntry f = cookieEntry g"
  by (simp add: cookieEntry_def)

lemma cookieEntry_Nil: "cookieEntry [] = None"
  by (simp add: cookieEntry_def trim_Nil)

lemma splitFragments_ne: "splitFragments s \<noteq> []"
  by (induction s rule: splitFragments.induct) (auto split: list.splits)

lemma parseCookieLoop_entries:
  "parseCookieLoop frs m =
     fold (\<lambda>(k, v). AList.update k v) (List.map_filter cookieEntry frs) m"
  by (induction frs arbitrary: m) (auto simp: List.map_filter_simps split: option.splits)

lemma entries_sep: "isCookieSeparator c \<Longrightarrow> entries (c # s) = entries s"
proof (cases s)
  case Nil
  assume "isCookieSeparator c"
  then show ?thesis using Nil by (simp add: entries_def List.map_filter_simps cookieEntry_Nil)
next
  case (Cons x xs)
  assume c: "isCookieSeparator c"
  show ?thesis
  proof (cases "isCookieSeparator x")
    case True
    with c Cons show ?thesis by (simp add: entries_def List.map_filter_simps cookieEntry_Nil)
  next
    case False
    with c Cons show ?thesis by (simp add: entries_def List.map_filter_simps cookieEntry_Nil)
  qed
qed

lemma entries_ws: "isWhiteSpace c \<Longrightarrow> entries (c # s) = entries s"
proof (cases "isCookieSeparator c")
  case True
  then show ?thesis by (rule entries_sep)
next
  case False
  assume w: "isWhiteSpace c"
  obtain f fs where F: "splitFragments s = f # fs"
    using splitFragments_ne[of s] by (cases "splitFragments s") auto
  have "cookieEntry (c # f) = cookieEntry f"
    by (rule cookieEntry_cong) (simp add: trim_Cons_ws w)
  with False F show ?thesis by (simp add: entries_def List.map_filter_simps)
qed

lemma entries_dropWhile: "entries (dropWhile isWhiteSpace s) = entries s"
  by (induction s) (auto simp: entries_ws)

lemma split_snoc_nonsep:
  "\<not> isCookieSeparator c \<Longrightarrow>
   splitFragments (s @ [c]) = butlast (splitFragments s) @ [last (splitFragments s) @ [c]]"
proof (induction s rule: splitFragments.induct)
  case 1
  then show ?case by simp
next
  case (2 x xs)
  show ?case
  proof (cases "isCookieSeparator x")
    case True
    have d: "dropWhile isCookieSeparator (xs @ [c]) = dropWhile isCookieSeparator xs @ [c]"
      using 2(3) by (auto simp: dropWhile_append)
    show ?thesis using True 2(1)[OF True 2(3)] d splitFragments_ne by simp
  next
    case False
    obtain f fs where F: "splitFragments xs = f # fs"
      using splitFragments_ne[of xs] by (cases "splitFragments xs") auto
    show ?thesis using False 2(2)[OF False 2(3)] F by (cases fs) auto
  qed
qed

lemma split_snoc_sep:
  "isCookieSeparator c \<Longrightarrow>
   splitFragments (s @ [c]) = splitFragments s \<or>
   splitFragments (s @ [c]) = splitFragments s @ [[]]"
proof (induction s rule: splitFragments.induct)
  case 1
  then show ?case by simp
next
  case (2 x xs)
  show ?case
  proof (cases "isCookieSeparator x")
    case True
    show ?thesis
    proof (cases "\<forall>y\<in>set xs. isCookieSeparator y")
      case all: True
      then have e: "dropWhile isCookieSeparator (xs @ [c]) = []"
          "dropWhile isCookieSeparator xs = []"
        using 2(3) by auto
      have "splitFragments ((x # xs) @ [c]) =
              [] # splitFragments (dropWhile isCookieSeparator (xs @ [c]))"
        using True by simp
      moreover have "splitFragments (x # xs) =
              [] # splitFragments (dropWhile isCookieSeparator xs)"
        using True by simp
      ultimately show ?thesis unfolding e by simp
    next
      case False
      then have d: "dropWhile isCookieSeparator (xs @ [c]) = dropWhile isCookieSeparator xs @ [c]"
        by (auto simp: dropWhile_append)
      show ?thesis using True 2(1)[OF True 2(3)] d by auto
    qed
  next
    case False
    obtain f fs where F: "splitFragments xs = f # fs"
      using splitFragments_ne[of xs] by (cases "splitFragments xs") auto
    show ?thesis using False 2(2)[OF False 2(3)] F by auto
  qed
qed

lemma entries_snoc: "isWhiteSpace c \<Longrightarrow> entries (s @ [c]) = entries s"
proof (cases "isCookieSeparator c")
  case True
  from split_snoc_sep[OF True, of s] show ?thesis
    by (auto simp: entries_def List.map_filter_def cookieEntry_Nil)
next
  case False
  assume w: "isWhiteSpace c"
  have ce: "cookieEntry (last (splitFragments s) @ [c]) = cookieEntry (last (splitFragments s))"
    by (rule cookieEntry_cong) (simp add: trim_snoc_ws w)
  have "List.map_filter cookieEntry (butlast (splitFragments s) @ [last (splitFragments s) @ [c]])
      = List.map_filter cookieEntry (butlast (splitFragments s) @ [last (splitFragments s)])"
    by (simp add: List.map_filter_def ce)
  then show ?thesis using splitFragments_ne[of s]
    by (simp add: entries_def split_snoc_nonsep[OF False])
qed

lemma entries_append_ws: "\<forall>c\<in>set ws. isWhiteSpace c \<Longrightarrow> entries (s @ ws) = entries s"
proof (induction ws arbitrary: s)
  case Nil
  then show ?case by simp
next
  case (Cons w ws)
  have "entries (s @ w # ws) = entries ((s @ [w]) @ ws)" by simp
  also have "\<dots> = entries (s @ [w])" using Cons by (intro Cons.IH) simp
  also have "\<dots> = entries s" using Cons.prems by (simp add: entries_snoc)
  finally show ?case .
qed

lemma entries_trim: "entries (trim s) = entries s"
proof -
  define u where "u = dropWhile isWhiteSpace s"
  have "rev u = takeWhile isWhiteSpace (rev u) @ dropWhile isWhiteSpace (rev u)" by simp
  then have "u = rev (dropWhile isWhiteSpace (rev u)) @ rev (takeWhile isWhiteSpace (rev u))"
    by (metis rev_append rev_rev_ident)
  then have u: "u = trim s @ rev (takeWhile isWhiteSpace (rev u))"
    by (simp add: trim_def u_def)
  have "entries u = entries (trim s)"
    by (subst u, rule entries_append_ws) (auto dest: set_takeWhileD)
  then show ?thesis by (simp add: u_def entries_dropWhile)
qed

lemma parseCookieString_trim: "parseCookieString (trim s) = parseCookieString s"
  using entries_trim[of s]
  by (simp add: parseCookieString_def parseCookieLoop_entries entries_def)

subsection \<open>Every result is trimmed\<close>

lemma firstCandidate_in:
  "firstCandidate m ks = Some v \<Longrightarrow> \<exists>k. map_of m k = Some v"
  by (induction ks) (auto split: option.splits if_splits)

lemma cookieEntry_val:
  "cookieEntry f = Some (k, v) \<Longrightarrow> v \<noteq> [] \<and> trim v = v"
  by (auto simp: cookieEntry_def Let_def trim_idem split: if_splits)

lemma parseCookieLoop_vals:
  "\<forall>k v. map_of m k = Some v \<longrightarrow> v \<noteq> [] \<and> trim v = v \<Longrightarrow>
   map_of (parseCookieLoop frs m) k = Some v \<Longrightarrow> v \<noteq> [] \<and> trim v = v"
proof (induction frs arbitrary: m)
  case Nil
  then show ?case by simp
next
  case (Cons f frs)
  show ?case
  proof (cases "cookieEntry f")
    case None
    with Cons show ?thesis by simp
  next
    case (Some kv)
    obtain k' v' where kv: "kv = (k', v')" by (cases kv)
    have "\<forall>k v. map_of (AList.update k' v' m) k = Some v \<longrightarrow> v \<noteq> [] \<and> trim v = v"
      using Cons.prems(1) cookieEntry_val[of f k' v'] Some kv
      by (auto simp: update_conv')
    from Cons.IH[OF this] Cons.prems(2) Some kv show ?thesis by simp
  qed
qed

lemma parseCookieString_vals:
  "map_of (parseCookieString s) k = Some v \<Longrightarrow> v \<noteq> [] \<and> trim v = v"
  unfolding parseCookieString_def by (rule parseCookieLoop_vals[of "[]"]) auto

lemma fromCookies_trimmed: "trim (fromCookies p t) = fromCookies p t"
  by (auto simp: fromCookies_def Let_def trim_Nil trim_idem split: option.splits
      dest!: firstCandidate_in parseCookieString_vals)

lemma normalize_trimmed: "trim (normalizeSessionInput p s) = normalizeSessionInput p s"
  by (auto simp: normalizeSessionInput_def Let_def trim_Nil trim_idem fromCookies_trimmed
      split: option.splits)

lemma normalize_fixed:
  "trim r = r \<Longrightarrow> \<not> includesChar r EQUALS \<Longrightarrow> colonMatch r = None \<Longrightarrow>
   normalizeSessionInput p r = r"
  by (auto simp: normalizeSessionInput_def Let_def)

subsection \<open>Bare tokens\<close>

text \<open>
  Claim C3, as the code has it. A credential string without \<open>=\<close> is returned with the
  whitespace around it removed, so unchanged when there is none, unless what is left
  has the shape \<open>identifier:value\<close>, which is tested first and returns the value. The
  claim as stated (every string without \<open>=\<close> is returned unchanged) fails on both
  counts.
\<close>

theorem bare_token_returned_trimmed:
  assumes "\<not> includesChar rawInput EQUALS"
      and "colonMatch (trim rawInput) = None"
  shows "normalizeSessionInput platformKey rawInput = trim rawInput \<and>
         (trim rawInput = rawInput \<longrightarrow> normalizeSessionInput platformKey rawInput = rawInput)"
proof -
  from assms(1) set_trim_subset[of rawInput]
  have "\<not> includesChar (trim rawInput) EQUALS"
    by (auto simp: includesChar_def)
  with assms(2) have "normalizeSessionInput platformKey rawInput = trim rawInput"
    by (auto simp: normalizeSessionInput_def Let_def)
  then show ?thesis by simp
qed

theorem bare_token_returned_trimmed_witness:
  "\<not> includesChar (js ''7f3a_token-01'') EQUALS \<and>
   colonMatch (trim (js ''7f3a_token-01'')) = None \<and>
   normalizeSessionInput Xyq (js ''7f3a_token-01'') = js ''7f3a_token-01''"
proof -
  have h1: "\<not> includesChar (js ''7f3a_token-01'') EQUALS"
    by (simp add: normalizer_eval)
  have h2: "colonMatch (trim (js ''7f3a_token-01'')) = None"
    by (simp add: normalizer_eval)
  have h3: "trim (js ''7f3a_token-01'') = js ''7f3a_token-01''"
    by (simp add: normalizer_eval)
  from bare_token_returned_trimmed[OF h1 h2, of Xyq] h1 h2 h3 show ?thesis by simp
qed

theorem bare_token_identity_counterexample:
  "\<not> includesChar (js ''sessionid:abc'') EQUALS \<and>
   normalizeSessionInput Jimeng (js ''sessionid:abc'') = js ''abc'' \<and>
   js ''abc'' \<noteq> js ''sessionid:abc'' \<and>
   \<not> includesChar (js '' abc'') EQUALS \<and>
   normalizeSessionInput Jimeng (js '' abc'') = js ''abc'' \<and>
   js ''abc'' \<noteq> js '' abc''"
  by (simp add: normalizer_eval)

subsection \<open>The highest-priority cookie\<close>

text \<open>
  The cookie path alone. When the credential string contains \<open>=\<close>, its parsed pairs
  hold the first candidate key of the platform (\<open>sessionid\<close> for jimeng,
  \<open>sessionid_pippitcn_web\<close> for xyq) and the trimmed string as a whole does not have the
  shape \<open>identifier:value\<close>, the result is the value stored under that key, whatever the
  order of the fragments and the whitespace around fragments, keys and values.
\<close>

lemma highest_priority_cookie_returned:
  assumes "cookieKey = (case platformKey of Jimeng \<Rightarrow> js ''sessionid''
                                           | Xyq \<Rightarrow> js ''sessionid_pippitcn_web'')"
      and "map_of (parseCookieString rawInput) cookieKey = Some v"
      and "includesChar rawInput EQUALS"
      and "colonMatch (trim rawInput) = None"
  shows "normalizeSessionInput platformKey rawInput = v"
proof -
  have eq: "includesChar (trim rawInput) EQUALS"
    using assms(3) in_set_trim[of EQUALS rawInput]
    by (simp add: includesChar_def isWhiteSpace_def EQUALS_def)
  then have ne: "trim rawInput \<noteq> []" by (auto simp: includesChar_def)
  have m: "map_of (parseCookieString (trim rawInput)) cookieKey = Some v"
    using assms(2) by (simp add: parseCookieString_trim)
  have v: "v \<noteq> []" using parseCookieString_vals[OF m] by simp
  have "firstCandidate (parseCookieString (trim rawInput))
          (SESSION_TOKEN_COOKIE_KEYS platformKey) = Some v"
    using m v assms(1) by (cases platformKey) simp_all
  then show ?thesis using eq assms(4) ne
    by (simp add: normalizeSessionInput_def fromCookies_def Let_def)
qed

lemma highest_priority_cookie_returned_witness:
  "map_of (parseCookieString (js ''  uid=7 ;sessionid = old; sessionid_pippitcn_web =  tok9 ;x=1''))
      (js ''sessionid_pippitcn_web'') = Some (js ''tok9'') \<and>
   includesChar (js ''  uid=7 ;sessionid = old; sessionid_pippitcn_web =  tok9 ;x=1'') EQUALS \<and>
   colonMatch (trim (js ''  uid=7 ;sessionid = old; sessionid_pippitcn_web =  tok9 ;x=1'')) = None \<and>
   normalizeSessionInput Xyq
      (js ''  uid=7 ;sessionid = old; sessionid_pippitcn_web =  tok9 ;x=1'') = js ''tok9''"
proof -
  let ?raw = "js ''  uid=7 ;sessionid = old; sessionid_pippitcn_web =  tok9 ;x=1''"
  have h1: "map_of (parseCookieString ?raw) (js ''sessionid_pippitcn_web'') = Some (js ''tok9'')"
    by (simp add: normalizer_eval)
  have h2: "includesChar ?raw EQUALS"
    by (simp add: normalizer_eval)
  have h3: "colonMatch (trim ?raw) = None"
    by (simp add: normalizer_eval)
  have h0: "js ''sessionid_pippitcn_web'' =
      (case Xyq of Jimeng \<Rightarrow> js ''sessionid'' | Xyq \<Rightarrow> js ''sessionid_pippitcn_web'')"
    by simp
  from highest_priority_cookie_returned[OF h0 h1 h2 h3] h1 h2 h3 show ?thesis by simp
qed

text \<open>
  Claim C4 at the code. The test for the hand-copied shape \<open>identifier:value\<close> runs on
  the whole trimmed string before the cookie parser, and its \<open>(.+)\<close> takes everything
  after the first colon, later fragments included. A pasted header line
  \<open>Cookie: uid=7; sessionid=abc\<close> and a cookie string whose first fragment is written
  \<open>uid:7\<close> both parse to pairs that hold \<open>sessionid\<close> with the value \<open>abc\<close>, yet the
  result is the rest of the string after the colon, not \<open>abc\<close>. With the fragments the
  other way round the result is \<open>abc\<close>: the order of the fragments matters.
\<close>

theorem colon_shape_swallows_cookie_fragments:
  "map_of (parseCookieString (js ''Cookie: uid=7; sessionid=abc'')) (js ''sessionid'')
     = Some (js ''abc'') \<and>
   includesChar (js ''Cookie: uid=7; sessionid=abc'') EQUALS \<and>
   normalizeSessionInput Jimeng (js ''Cookie: uid=7; sessionid=abc'')
     = js ''uid=7; sessionid=abc'' \<and>
   js ''uid=7; sessionid=abc'' \<noteq> js ''abc'' \<and>
   map_of (parseCookieString (js ''uid:7; sessionid=abc'')) (js ''sessionid'') = Some (js ''abc'') \<and>
   includesChar (js ''uid:7; sessionid=abc'') EQUALS \<and>
   normalizeSessionInput Jimeng (js ''uid:7; sessionid=abc'') = js ''7; sessionid=abc'' \<and>
   js ''7; sessionid=abc'' \<noteq> js ''abc'' \<and>
   normalizeSessionInput Jimeng (js ''sessionid=abc; uid:7'') = js ''abc'' \<and>
   map_of (parseCookieString (js ''a:b; sessionid_pippitcn_web=tok9''))
     (js ''sessionid_pippitcn_web'') = Some (js ''tok9'') \<and>
   normalizeSessionInput Xyq (js ''a:b; sessionid_pippitcn_web=tok9'')
     = js ''b; sessionid_pippitcn_web=tok9''"
  by (simp add: normalizer_eval)

subsection \<open>Re-normalizing\<close>

text \<open>
  Claim C5, as the code has it. Every result of the normalizer is trimmed, and
  normalizing it again returns it whenever it contains no \<open>=\<close> and does not itself have
  the shape \<open>identifier:value\<close>. A result that does is taken apart once more: a cookie
  value ending in \<open>=\<close> padding, or a value with a colon after an identifier, is not a
  fixed point, so normalization is not idempotent on every input.
\<close>

theorem renormalizing_canonical_token:
  assumes "\<not> includesChar (normalizeSessionInput platformKey rawInput) EQUALS"
      and "colonMatch (normalizeSessionInput platformKey rawInput) = None"
  shows "normalizeSessionInput platformKey (normalizeSessionInput platformKey rawInput) =
         normalizeSessionInput platformKey rawInput"
  using assms by (intro normalize_fixed normalize_trimmed)

theorem renormalizing_canonical_token_witness:
  "\<not> includesChar (normalizeSessionInput Jimeng (js ''uid=7; sessionid= 5ac1 '')) EQUALS \<and>
   colonMatch (normalizeSessionInput Jimeng (js ''uid=7; sessionid= 5ac1 '')) = None \<and>
   normalizeSessionInput Jimeng (js ''uid=7; sessionid= 5ac1 '') = js ''5ac1'' \<and>
   normalizeSessionInput Jimeng (normalizeSessionInput Jimeng (js ''uid=7; sessionid= 5ac1 ''))
     = js ''5ac1''"
proof -
  have r: "normalizeSessionInput Jimeng (js ''uid=7; sessionid= 5ac1 '') = js ''5ac1''"
    by (simp add: normalizer_eval)
  have h1: "\<not> includesChar (normalizeSessionInput Jimeng (js ''uid=7; sessionid= 5ac1 '')) EQUALS"
    unfolding r by (simp add: normalizer_eval)
  have h2: "colonMatch (normalizeSessionInput Jimeng (js ''uid=7; sessionid= 5ac1 '')) = None"
    unfolding r by (simp add: normalizer_eval)
  from renormalizing_canonical_token[OF h1 h2] h1 h2 r show ?thesis by simp
qed

theorem idempotence_counterexample:
  "normalizeSessionInput Jimeng (js ''sessionid=YWJj=='') = js ''YWJj=='' \<and>
   normalizeSessionInput Jimeng (js ''YWJj=='') = js ''='' \<and>
   js ''='' \<noteq> js ''YWJj=='' \<and>
   normalizeSessionInput Xyq (js ''token:a:b'') = js ''a:b'' \<and>
   normalizeSessionInput Xyq (js ''a:b'') = js ''b'' \<and>
   js ''b'' \<noteq> js ''a:b''"
  by (simp add: normalizer_eval)

section \<open>Properties of the Platform Request Client\<close>

lemmas request_eval =
  platformRequest_def tryAttempt_def numberToString_def js_def Let_def toLowerCase_def

lemma tryAttempt_Rejects: "tryAttempt parse pk (Rejects m) = Inl (TransportFailure m)"
  by (simp add: tryAttempt_def)

lemma numberToString_0: "numberToString 0 = js ''0''"
  by (simp add: numberToString_def digitsOf.simps js_def)

lemma tryAttempt_ret0:
  "parse txt = JsonWithRet 0 errmsg payload \<Longrightarrow>
   tryAttempt parse pk (Responds st ct txt) = Inr payload"
  by (simp add: tryAttempt_def numberToString_0)

lemma attemptLoop_success:
  "attempt \<le> 3 \<Longrightarrow> tryAttempt parse pk (net attempt) = Inr v \<Longrightarrow>
   attemptLoop parse net pk attempt =
     (Inr (Returned v),
      (if attempt > 0 then [Sleep (1000 * attempt)] else []) @ [HttpCall attempt])"
  by (subst attemptLoop.simps) (simp add: Let_def)

lemma attemptLoop_retry:
  "attempt < 3 \<Longrightarrow> tryAttempt parse pk (net attempt) = Inl err \<Longrightarrow> \<not> isApiError err \<Longrightarrow>
   attemptLoop parse net pk attempt =
     (fst (attemptLoop parse net pk (attempt + 1)),
      (if attempt > 0 then [Sleep (1000 * attempt)] else []) @ [HttpCall attempt]
        @ snd (attemptLoop parse net pk (attempt + 1)))"
  by (subst attemptLoop.simps) (simp add: Let_def split: prod.splits)

lemma attemptLoop_last:
  "tryAttempt parse pk (net 3) = Inl err \<Longrightarrow>
   attemptLoop parse net pk 3 = (Inl err, [Sleep 3000, HttpCall 3])"
  by (subst attemptLoop.simps) (simp add: Let_def)

lemma retry_from_0:
  "tryAttempt parse pk (net 0) = Inl err \<Longrightarrow> \<not> isApiError err \<Longrightarrow>
   attemptLoop parse net pk 0 =
     (fst (attemptLoop parse net pk 1), HttpCall 0 # snd (attemptLoop parse net pk 1))"
  by (subst attemptLoop.simps) (simp add: Let_def split: prod.splits)

lemma retry_from_1:
  "tryAttempt parse pk (net 1) = Inl err \<Longrightarrow> \<not> isApiError err \<Longrightarrow>
   attemptLoop parse net pk 1 =
     (fst (attemptLoop parse net pk 2),
      Sleep 1000 # HttpCall 1 # snd (attemptLoop parse net pk 2))"
  by (subst attemptLoop.simps) (simp add: Let_def split: prod.splits del: One_nat_def)

lemma retry_from_2:
  "tryAttempt parse pk (net 2) = Inl err \<Longrightarrow> \<not> isApiError err \<Longrightarrow>
   attemptLoop parse net pk 2 =
     (fst (attemptLoop parse net pk 3),
      Sleep 2000 # HttpCall 2 # snd (attemptLoop parse net pk 3))"
  by (subst attemptLoop.simps) (simp add: Let_def split: prod.splits)

text \<open>The loop never falls through: \<open>platformRequest\<close> returns a value or throws.\<close>

lemma attemptLoop_defined:
  "attempt \<le> 3 \<Longrightarrow> fst (attemptLoop parse net pk attempt) \<noteq> Inr ReturnedUndefined"
proof (induction parse net pk attempt rule: attemptLoop.induct)
  case (1 parse net pk attempt)
  show ?case
  proof (cases "tryAttempt parse pk (net attempt)")
    case (Inr v)
    with 1(2) show ?thesis by (simp add: attemptLoop_success)
  next
    case (Inl err)
    show ?thesis
    proof (cases "isApiError err \<or> attempt = 3")
      case True
      with Inl 1(2) show ?thesis
        by (subst attemptLoop.simps) (auto simp add: Let_def)
    next
      case False
      with 1(2) have lt: "attempt < 3" by simp
      from False have na: "\<not> isApiError err" by simp
      have "fst (attemptLoop parse net pk (attempt + 1)) \<noteq> Inr ReturnedUndefined"
        using 1(1) 1(2) Inl False lt by simp
      then show ?thesis
        by (simp add: attemptLoop_retry[of attempt parse pk net err, OF lt Inl na])
    qed
  qed
qed

lemma platformRequest_defined:
  "fst (platformRequest parse net platformKey) \<noteq> Inr ReturnedUndefined"
  by (simp add: platformRequest_def attemptLoop_defined)

text \<open>
  A response whose \<open>ret\<close> renders neither as \<open>0\<close> nor as \<open>5000\<close> ends the call at once:
  the error carries \<open>isApiError\<close> and there is one HTTP call.
\<close>

lemma flagged_errors_are_terminal:
  assumes "net 0 = Responds httpStatus contentType responseText"
      and "parse responseText = JsonWithRet ret errmsg payload"
      and "numberToString ret \<noteq> js ''0''" and "numberToString ret \<noteq> js ''5000''"
  shows "\<exists>err. platformRequest parse net platformKey = (Inl err, [HttpCall 0])"
  using assms
  by (auto simp: platformRequest_def attemptLoop.simps[of _ _ _ 0] tryAttempt_def Let_def)

text \<open>
  Claim C1 at the code. The error thrown for \<open>ret = 5000\<close> is a plain \<open>Error\<close> without
  \<open>isApiError\<close>, so the \<open>catch\<close> block treats it as a transport failure: with a
  platform that keeps answering \<open>ret = 5000\<close> the call sleeps and repeats the request
  three more times before the error leaves it. The answers \<open>ret = 1015\<close> and
  \<open>ret = 4001\<close> end the call after one request, as the comments in the source say of
  every business error.
\<close>

theorem insufficient_balance_is_retried:
  "platformRequest (\<lambda>t. JsonWithRet 5000 None (js ''null''))
      (\<lambda>i. Responds 200 (js ''application/json'') (js ''{ret:5000}'')) Jimeng
    = (Inl (InsufficientCredits Jimeng),
       [HttpCall 0, Sleep 1000, HttpCall 1, Sleep 2000, HttpCall 2, Sleep 3000, HttpCall 3]) \<and>
   platformRequest (\<lambda>t. JsonWithRet 1015 (Some (js ''Login required'')) (js ''null''))
      (\<lambda>i. Responds 200 (js ''application/json'') (js ''{ret:1015}'')) Jimeng
    = (Inl (LoginCheckFailed Jimeng), [HttpCall 0]) \<and>
   platformRequest (\<lambda>t. JsonWithRet 4001 None (js ''null''))
      (\<lambda>i. Responds 200 (js ''application/json'') (js ''{ret:4001}'')) Jimeng
    = (Inl (ApiFailure Jimeng (js ''4001'') (js ''4001'')), [HttpCall 0])"
  by (simp add: request_eval attemptLoop.simps digitsOf.simps)

text \<open>
  Claim C2. When the first \<open>k \<le> 3\<close> attempts are rejected by the transport and attempt
  \<open>k\<close> is answered with business status 0, the call returns the \<open>data\<close> of that answer,
  having slept 1000, 2000, ... milliseconds before the retries (for \<open>k = 3\<close>: 1 s, 2 s and
  3 s, four HTTP calls). When the fourth attempt is rejected as well, its error is
  thrown to the caller after the same four calls.
\<close>

theorem transport_failures_are_retried:
  assumes "k \<le> 3" and "\<forall>i<k. \<exists>message. net i = Rejects message"
  shows "(net k = Responds httpStatus contentType responseText \<and>
          parse responseText = JsonWithRet 0 errmsg payload \<longrightarrow>
            platformRequest parse net platformKey =
              (Inr (Returned payload),
               take (2 * k + 1) [HttpCall 0, Sleep 1000, HttpCall 1, Sleep 2000, HttpCall 2,
                                 Sleep 3000, HttpCall 3])) \<and>
         (k = 3 \<and> net 3 = Rejects lastMessage \<longrightarrow>
            platformRequest parse net platformKey =
              (Inl (TransportFailure lastMessage),
               [HttpCall 0, Sleep 1000, HttpCall 1, Sleep 2000, HttpCall 2,
                Sleep 3000, HttpCall 3]))"
proof -
  have rej: "\<And>i. i < k \<Longrightarrow> \<exists>m. tryAttempt parse platformKey (net i) = Inl (TransportFailure m)"
    using assms(2) by (metis tryAttempt_Rejects)
  from assms(1) consider "k = 0" | "k = 1" | "k = 2" | "k = 3" by linarith
  then show ?thesis
  proof cases
    case 1
    then show ?thesis
      by (auto simp: platformRequest_def attemptLoop_success tryAttempt_ret0)
  next
    case 2
    from rej[of 0] 2 obtain m0
      where m0: "tryAttempt parse platformKey (net 0) = Inl (TransportFailure m0)" by auto
    show ?thesis using 2
      by (auto simp del: One_nat_def simp add: platformRequest_def
          retry_from_0[of parse platformKey net "TransportFailure m0", OF m0]
          attemptLoop_success tryAttempt_ret0)
  next
    case 3
    from rej[of 0] 3 obtain m0
      where m0: "tryAttempt parse platformKey (net 0) = Inl (TransportFailure m0)" by auto
    from rej[of 1] 3 obtain m1
      where m1: "tryAttempt parse platformKey (net 1) = Inl (TransportFailure m1)" by auto
    show ?thesis using 3
      by (auto simp del: One_nat_def simp add: platformRequest_def
          retry_from_0[of parse platformKey net "TransportFailure m0", OF m0]
          retry_from_1[of parse platformKey net "TransportFailure m1", OF m1]
          attemptLoop_success tryAttempt_ret0)
  next
    case 4
    from rej[of 0] 4 obtain m0
      where m0: "tryAttempt parse platformKey (net 0) = Inl (TransportFailure m0)" by auto
    from rej[of 1] 4 obtain m1
      where m1: "tryAttempt parse platformKey (net 1) = Inl (TransportFailure m1)" by auto
    from rej[of 2] 4 obtain m2
      where m2: "tryAttempt parse platformKey (net 2) = Inl (TransportFailure m2)" by auto
    show ?thesis using 4
      by (auto simp del: One_nat_def simp add: platformRequest_def
          retry_from_0[of parse platformKey net "TransportFailure m0", OF m0]
          retry_from_1[of parse platformKey net "TransportFailure m1", OF m1]
          retry_from_2[of parse platformKey net "TransportFailure m2", OF m2]
          attemptLoop_success tryAttempt_ret0 attemptLoop_last tryAttempt_Rejects)
  qed
qed

theorem transport_failures_are_retried_witness:
  "(3::nat) \<le> 3 \<and>
   platformRequest (\<lambda>t. JsonWithRet 0 None (js ''payload''))
      (\<lambda>i. if i < 3 then Rejects (js ''timeout'')
            else Responds 200 (js ''application/json'') (js ''{}'')) Jimeng
    = (Inr (Returned (js ''payload'')),
       [HttpCall 0, Sleep 1000, HttpCall 1, Sleep 2000, HttpCall 2, Sleep 3000, HttpCall 3]) \<and>
   platformRequest (\<lambda>t. JsonWithRet 0 None (js ''payload''))
      (\<lambda>i. Rejects (js ''timeout'')) Jimeng
    = (Inl (TransportFailure (js ''timeout'')),
       [HttpCall 0, Sleep 1000, HttpCall 1, Sleep 2000, HttpCall 2, Sleep 3000, HttpCall 3])"
proof -
  let ?net = "\<lambda>i::nat. if i < 3 then Rejects (js ''timeout'')
                        else Responds 200 (js ''application/json'') (js ''{}'')"
  let ?net2 = "\<lambda>i::nat. Rejects (js ''timeout'')"
  let ?parse = "\<lambda>t::jsstr. JsonWithRet 0 None (js ''payload'')"
  have h1: "(3::nat) \<le> 3" by simp
  have h2: "\<forall>i<3. \<exists>message. ?net i = Rejects message" by simp
  have h3: "\<forall>i<3. \<exists>message. ?net2 i = Rejects message" by simp
  from transport_failures_are_retried[OF h1 h2,
         of 200 "js ''application/json''" "js ''{}''" ?parse None "js ''payload''" Jimeng]
       transport_failures_are_retried[OF h1 h3,
         of 200 "js ''application/json''" "js ''{}''" ?parse None "js ''payload''" Jimeng
            "js ''timeout''"]
  show ?thesis by simp
qed

section \<open>Properties of the Task Registry\<close>

lemmas registry_eval =
  pollTask_def sweepTasks_def runDueTimers_def storedUnderOwnId_def
  VIDEO_GENERATION_TIMEOUT_MS_def maxRetries_def pollingContinues_def js_def Let_def

lemma map_of_fold_delete:
  "map_of (fold (\<lambda>(k, v) m. if P k v then AList.delete k m else m) xs m0) key =
     (if \<exists>v. (key, v) \<in> set xs \<and> P key v then None else map_of m0 key)"
proof (induction xs arbitrary: m0)
  case Nil
  then show ?case by simp
next
  case (Cons x xs)
  obtain k v where x: "x = (k, v)" by (cases x)
  show ?case unfolding x by (auto simp: Cons.IH delete_conv')
qed

lemma map_of_fold_delete_timers:
  "map_of (fold (\<lambda>(due, target) m. if P due then AList.delete target m else m) xs m0) key =
     (if \<exists>due. (due, key) \<in> set xs \<and> P due then None else map_of m0 key)"
proof (induction xs arbitrary: m0)
  case Nil
  then show ?case by simp
next
  case (Cons x xs)
  obtain d k where x: "x = (d, k)" by (cases x)
  show ?case unfolding x by (auto simp: Cons.IH delete_conv')
qed

lemma own_id: "storedUnderOwnId reg \<Longrightarrow> map_of (tasks reg) key = Some t \<Longrightarrow> taskId t = key"
  by (auto simp: storedUnderOwnId_def list_all_iff dest!: map_of_SomeD)

subsection \<open>The registry keeps every job under its own id\<close>

lemma list_all_update:
  "list_all P al \<Longrightarrow> P (k, v) \<Longrightarrow> list_all P (AList.update k v al)"
  by (induction al) auto

lemma set_fold_delete_subset:
  "set (fold (\<lambda>(a, b) m. if Q a b then AList.delete (sel a b) m else m) xs m0) \<subseteq> set m0"
proof (induction xs arbitrary: m0)
  case Nil
  then show ?case by simp
next
  case (Cons x xs)
  obtain a b where x: "x = (a, b)" by (cases x)
  have "set (AList.delete (sel a b) m0) \<subseteq> set m0" by (auto simp: AList.delete_eq)
  with Cons.IH[of "AList.delete (sel a b) m0"] Cons.IH[of m0] show ?case
    unfolding x by auto
qed

lemma storedUnderOwnId_empty: "storedUnderOwnId \<lparr>tasks = [], taskCounter = 0, timers = []\<rparr>"
  by (simp add: storedUnderOwnId_def)

lemma storedUnderOwnId_submitTask:
  "storedUnderOwnId reg \<Longrightarrow> storedUnderOwnId (snd (submitTask platformKey startedAt now reg))"
  by (simp add: storedUnderOwnId_def submitTask_def createTaskId_def list_all_update)

lemma storedUnderOwnId_sweepTasks:
  "storedUnderOwnId reg \<Longrightarrow> storedUnderOwnId (sweepTasks now reg)"
  using set_fold_delete_subset[of "\<lambda>k v. now - startTime v > 30 * 60 * 1000" "\<lambda>k v. k"
          "tasks reg" "tasks reg"]
  by (auto simp: storedUnderOwnId_def sweepTasks_def list_all_iff)

lemma storedUnderOwnId_runDueTimers:
  "storedUnderOwnId reg \<Longrightarrow> storedUnderOwnId (runDueTimers now reg)"
  using set_fold_delete_subset[of "\<lambda>due target. due \<le> now" "\<lambda>due target. target"
          "timers reg" "tasks reg"]
  by (auto simp: storedUnderOwnId_def runDueTimers_def list_all_iff)

lemma storedUnderOwnId_pollTask:
  "storedUnderOwnId reg \<Longrightarrow> storedUnderOwnId (snd (pollTask requestedId now reg))"
  by (auto simp: storedUnderOwnId_def pollTask_def Let_def split: option.splits)

subsection \<open>Polling\<close>

text \<open>
  Claim C7. A poll for an id that is not in the registry answers 404 and changes
  nothing. A poll for a known job answers with exactly one of the three bodies, chosen
  by the job's status. A poll that sees the job done or failed registers a callback due
  300000 ms later; once that time has come the job is gone from the registry, and when
  no earlier poll had registered one, the job is still there at every earlier time.
\<close>

theorem poll_task_answers:
  assumes "storedUnderOwnId reg"
  shows "(map_of (tasks reg) requestedId = None \<longrightarrow>
            pollTask requestedId now reg = (NotFound404, reg)) \<and>
         (\<forall>t. map_of (tasks reg) requestedId = Some t \<longrightarrow>
            fst (pollTask requestedId now reg) =
              (case status t of
                 Processing \<Rightarrow> PollProcessing ((now - startTime t) div 1000) (progress t)
               | Done \<Rightarrow> PollDone ((now - startTime t) div 1000) (result t)
               | Failed \<Rightarrow> PollError ((now - startTime t) div 1000) (error t)) \<and>
            (status t = Processing \<longrightarrow> snd (pollTask requestedId now reg) = reg) \<and>
            (status t \<noteq> Processing \<longrightarrow>
               snd (pollTask requestedId now reg) =
                 reg\<lparr>timers := timers reg @ [(now + 300000, requestedId)]\<rparr> \<and>
               (\<forall>later. now + 300000 \<le> later \<longrightarrow>
                  map_of (tasks (runDueTimers later (snd (pollTask requestedId now reg))))
                    requestedId = None) \<and>
               (timers reg = [] \<longrightarrow>
                  (\<forall>earlier. earlier < now + 300000 \<longrightarrow>
                     map_of (tasks (runDueTimers earlier (snd (pollTask requestedId now reg))))
                       requestedId = Some t))))"
proof (intro conjI allI impI)
  assume "map_of (tasks reg) requestedId = None"
  then show "pollTask requestedId now reg = (NotFound404, reg)"
    by (simp add: pollTask_def)
next
  fix t
  assume t: "map_of (tasks reg) requestedId = Some t"
  show "fst (pollTask requestedId now reg) =
          (case status t of
             Processing \<Rightarrow> PollProcessing ((now - startTime t) div 1000) (progress t)
           | Done \<Rightarrow> PollDone ((now - startTime t) div 1000) (result t)
           | Failed \<Rightarrow> PollError ((now - startTime t) div 1000) (error t))"
    using t by (cases "status t") (simp_all add: pollTask_def Let_def)
next
  fix t
  assume "map_of (tasks reg) requestedId = Some t" "status t = Processing"
  then show "snd (pollTask requestedId now reg) = reg"
    by (simp add: pollTask_def Let_def)
next
  fix t
  assume t: "map_of (tasks reg) requestedId = Some t" and s: "status t \<noteq> Processing"
  from own_id[OF assms t] have i: "taskId t = requestedId" .
  show "snd (pollTask requestedId now reg) =
          reg\<lparr>timers := timers reg @ [(now + 300000, requestedId)]\<rparr>"
    using t s i by (cases "status t") (simp_all add: pollTask_def Let_def)
next
  fix t later
  assume t: "map_of (tasks reg) requestedId = Some t" and s: "status t \<noteq> Processing"
     and l: "now + 300000 \<le> later"
  from own_id[OF assms t] have i: "taskId t = requestedId" .
  have p: "snd (pollTask requestedId now reg) =
          reg\<lparr>timers := timers reg @ [(now + 300000, requestedId)]\<rparr>"
    using t s i by (cases "status t") (simp_all add: pollTask_def Let_def)
  show "map_of (tasks (runDueTimers later (snd (pollTask requestedId now reg)))) requestedId = None"
    unfolding p using l
    by (simp add: runDueTimers_def delete_conv')
next
  fix t earlier
  assume t: "map_of (tasks reg) requestedId = Some t" and s: "status t \<noteq> Processing"
     and e: "timers reg = []" and l: "earlier < now + 300000"
  from own_id[OF assms t] have i: "taskId t = requestedId" .
  have p: "snd (pollTask requestedId now reg) =
          reg\<lparr>timers := timers reg @ [(now + 300000, requestedId)]\<rparr>"
    using t s i by (cases "status t") (simp_all add: pollTask_def Let_def)
  show "map_of (tasks (runDueTimers earlier (snd (pollTask requestedId now reg)))) requestedId = Some t"
    unfolding p using l e t
    by (simp add: runDueTimers_def)
qed

theorem poll_task_answers_witness:
  "storedUnderOwnId
     \<lparr>tasks = [(js ''task_1_1000'',
                \<lparr>taskId = js ''task_1_1000'', platform = Jimeng, status = Done,
                 progress = js ''ok'', startTime = 1000,
                 result = Some \<lparr>created = 61, video_url = js ''https://x/v.mp4'', revised_prompt = js ''p''\<rparr>,
                 error = None\<rparr>)],
      taskCounter = 1, timers = []\<rparr> \<and>
   fst (pollTask (js ''task_1_1000'') 61000
     \<lparr>tasks = [(js ''task_1_1000'',
                \<lparr>taskId = js ''task_1_1000'', platform = Jimeng, status = Done,
                 progress = js ''ok'', startTime = 1000,
                 result = Some \<lparr>created = 61, video_url = js ''https://x/v.mp4'', revised_prompt = js ''p''\<rparr>,
                 error = None\<rparr>)],
      taskCounter = 1, timers = []\<rparr>)
     = PollDone 60 (Some \<lparr>created = 61, video_url = js ''https://x/v.mp4'', revised_prompt = js ''p''\<rparr>) \<and>
   map_of (tasks (runDueTimers 361000 (snd (pollTask (js ''task_1_1000'') 61000
     \<lparr>tasks = [(js ''task_1_1000'',
                \<lparr>taskId = js ''task_1_1000'', platform = Jimeng, status = Done,
                 progress = js ''ok'', startTime = 1000,
                 result = Some \<lparr>created = 61, video_url = js ''https://x/v.mp4'', revised_prompt = js ''p''\<rparr>,
                 error = None\<rparr>)],
      taskCounter = 1, timers = []\<rparr>)))) (js ''task_1_1000'') = None \<and>
   map_of (tasks (runDueTimers 360999 (snd (pollTask (js ''task_1_1000'') 61000
     \<lparr>tasks = [(js ''task_1_1000'',
                \<lparr>taskId = js ''task_1_1000'', platform = Jimeng, status = Done,
                 progress = js ''ok'', startTime = 1000,
                 result = Some \<lparr>created = 61, video_url = js ''https://x/v.mp4'', revised_prompt = js ''p''\<rparr>,
                 error = None\<rparr>)],
      taskCounter = 1, timers = []\<rparr>)))) (js ''task_1_1000'') \<noteq> None \<and>
   pollTask (js ''task_2_1000'') 61000
     \<lparr>tasks = [(js ''task_1_1000'',
                \<lparr>taskId = js ''task_1_1000'', platform = Jimeng, status = Done,
                 progress = js ''ok'', startTime = 1000,
                 result = Some \<lparr>created = 61, video_url = js ''https://x/v.mp4'', revised_prompt = js ''p''\<rparr>,
                 error = None\<rparr>)],
      taskCounter = 1, timers = []\<rparr>
     = (NotFound404,
        \<lparr>tasks = [(js ''task_1_1000'',
                \<lparr>taskId = js ''task_1_1000'', platform = Jimeng, status = Done,
                 progress = js ''ok'', startTime = 1000,
                 result = Some \<lparr>created = 61, video_url = js ''https://x/v.mp4'', revised_prompt = js ''p''\<rparr>,
                 error = None\<rparr>)],
      taskCounter = 1, timers = []\<rparr>)"
proof -
  let ?t = "\<lparr>taskId = js ''task_1_1000'', platform = Jimeng, status = Done,
                 progress = js ''ok'', startTime = 1000,
                 result = Some \<lparr>created = 61, video_url = js ''https://x/v.mp4'', revised_prompt = js ''p''\<rparr>,
                 error = None\<rparr>"
  let ?reg = "\<lparr>tasks = [(js ''task_1_1000'', ?t)], taskCounter = 1, timers = []\<rparr>"
  let ?p = "pollTask (js ''task_1_1000'') 61000 ?reg"
  have h: "storedUnderOwnId ?reg" by (simp add: storedUnderOwnId_def)
  have m1: "map_of (tasks ?reg) (js ''task_1_1000'') = Some ?t" by simp
  have m2: "map_of (tasks ?reg) (js ''task_2_1000'') = None" by (simp add: js_def)
  have ne: "status ?t \<noteq> Processing" by simp
  note T = poll_task_answers[OF h, of "js ''task_1_1000''" 61000]
  from T m1 have "fst ?p =
      (case status ?t of
         Processing \<Rightarrow> PollProcessing ((61000 - startTime ?t) div 1000) (progress ?t)
       | Done \<Rightarrow> PollDone ((61000 - startTime ?t) div 1000) (result ?t)
       | Failed \<Rightarrow> PollError ((61000 - startTime ?t) div 1000) (error ?t))"
    by blast
  then have a: "fst ?p = PollDone 60 (result ?t)" by simp
  from T m1 ne
  have "\<forall>later. 61000 + 300000 \<le> later \<longrightarrow>
          map_of (tasks (runDueTimers later (snd ?p))) (js ''task_1_1000'') = None"
    by blast
  from spec[OF this, of 361000]
  have b: "map_of (tasks (runDueTimers 361000 (snd ?p))) (js ''task_1_1000'') = None"
    by simp
  have te: "timers ?reg = []" by simp
  from T m1 ne te
  have "\<forall>earlier. earlier < 61000 + 300000 \<longrightarrow>
          map_of (tasks (runDueTimers earlier (snd ?p))) (js ''task_1_1000'') = Some ?t"
    by blast
  from spec[OF this, of 360999]
  have b': "map_of (tasks (runDueTimers 360999 (snd ?p))) (js ''task_1_1000'') \<noteq> None"
    by simp
  from poll_task_answers[OF h, of "js ''task_2_1000''" 61000] m2
  have c: "pollTask (js ''task_2_1000'') 61000 ?reg = (NotFound404, ?reg)" by blast
  from h a b b' c show ?thesis by simp
qed

subsection \<open>The sweep\<close>

text \<open>
  Claim C10. The sweep deletes every job that is more than 30 minutes old, whatever its
  status; a poll for its id afterwards answers 404. The default limit of a generation is
  45 minutes, more than the 30 minutes of the sweep: a job that is that old, still
  processing and within the limit is deleted by the sweep while the polling loop of its
  generation goes on.
\<close>

theorem sweep_evicts_running_jobs:
  assumes "map_of (tasks reg) requestedId = Some t"
      and "now - startTime t > 30 * 60 * 1000"
  shows "map_of (tasks (sweepTasks now reg)) requestedId = None \<and>
         pollTask requestedId later (sweepTasks now reg) = (NotFound404, sweepTasks now reg) \<and>
         30 * 60 * 1000 < VIDEO_GENERATION_TIMEOUT_MS None \<and>
         (status t = Processing \<and> now - startTime t < VIDEO_GENERATION_TIMEOUT_MS None \<and>
          retryCount < maxRetries None \<longrightarrow> pollingContinues None retryCount 20 t now)"
proof -
  from assms(1) have "(requestedId, t) \<in> set (tasks reg)" by (rule map_of_SomeD)
  with assms(2) have gone: "map_of (tasks (sweepTasks now reg)) requestedId = None"
    by (auto simp: sweepTasks_def map_of_fold_delete)
  then have "pollTask requestedId later (sweepTasks now reg) = (NotFound404, sweepTasks now reg)"
    by (simp add: pollTask_def)
  with gone show ?thesis
    by (simp add: VIDEO_GENERATION_TIMEOUT_MS_def pollingContinues_def)
qed

theorem sweep_evicts_running_jobs_witness:
  "map_of (tasks \<lparr>tasks = [(js ''task_1_0'',
                \<lparr>taskId = js ''task_1_0'', platform = Jimeng, status = Processing,
                 progress = js ''run'', startTime = 0, result = None, error = None\<rparr>)],
      taskCounter = 1, timers = []\<rparr>) (js ''task_1_0'') =
     Some \<lparr>taskId = js ''task_1_0'', platform = Jimeng, status = Processing,
           progress = js ''run'', startTime = 0, result = None, error = None\<rparr> \<and>
   (1800001::int) - 0 > 30 * 60 * 1000 \<and>
   fst (pollTask (js ''task_1_0'') 1800002 (sweepTasks 1800001
     \<lparr>tasks = [(js ''task_1_0'',
                \<lparr>taskId = js ''task_1_0'', platform = Jimeng, status = Processing,
                 progress = js ''run'', startTime = 0, result = None, error = None\<rparr>)],
      taskCounter = 1, timers = []\<rparr>)) = NotFound404 \<and>
   pollingContinues None 900 20
     \<lparr>taskId = js ''task_1_0'', platform = Jimeng, status = Processing,
      progress = js ''run'', startTime = 0, result = None, error = None\<rparr> 1800001"
proof -
  let ?t = "\<lparr>taskId = js ''task_1_0'', platform = Jimeng, status = Processing,
                 progress = js ''run'', startTime = 0, result = None, error = None\<rparr>"
  let ?reg = "\<lparr>tasks = [(js ''task_1_0'', ?t)], taskCounter = 1, timers = []\<rparr>"
  have h1: "map_of (tasks ?reg) (js ''task_1_0'') = Some ?t" by simp
  have h2: "1800001 - startTime ?t > 30 * 60 * 1000" by simp
  have h3: "status ?t = Processing \<and> 1800001 - startTime ?t < VIDEO_GENERATION_TIMEOUT_MS None \<and>
          900 < maxRetries None"
    by (simp add: VIDEO_GENERATION_TIMEOUT_MS_def maxRetries_def)
  from sweep_evicts_running_jobs[OF h1 h2, of 1800002 900] h1 h3 show ?thesis by simp
qed

section \<open>Properties of the Browser Session Pool\<close>

lemmas pool_eval =
  isTargetClosedError_def TARGET_CLOSED_PATTERNS_def toLowerCase_def js_def Let_def
  recreateBrowser_def resetAllSessions_def fetchUnderLock_def

lemma isTargetClosedError_empty: "\<not> isTargetClosedError []"
  by (simp add: pool_eval)

lemma recreateBrowser_eq: "recreateBrowser p = p\<lparr>browser := None, sessions := []\<rparr>"
  by (simp add: recreateBrowser_def resetAllSessions_def)

text \<open>The second turn of the loop never recreates the browser and never loops again.\<close>

lemma fetchLoop_second:
  "fetchLoop getSession evaluate parse platformKey 1 p =
     (case getSession p of
        (Inl thrown, p2) \<Rightarrow> (Inl thrown, p2, [GetSession])
      | (Inr session, p2) \<Rightarrow>
          (case evaluate 1 session of
             Inl secondMessage \<Rightarrow>
               (Inl (if stringIncludes
                          (if secondMessage \<noteq> [] then secondMessage else js ''unknown error'')
                          (js ''Failed to fetch'')
                     then RequestFailed platformKey else Thrown secondMessage),
                p2, [GetSession, Evaluate 1])
           | Inr (RawResult ok httpStatus contentType responseBody) \<Rightarrow>
               ((case parse responseBody of
                   Some json \<Rightarrow> Inr json
                 | None \<Rightarrow>
                     if looksLikeHtmlResponse contentType responseBody
                     then Inl (AuthInvalidInBrowser platformKey)
                     else Inl (NonJsonInBrowser httpStatus (previewBody responseBody))),
                p2, [GetSession, Evaluate 1])))"
  by (subst fetchLoop.simps)
     (simp add: Let_def split: prod.splits sum.splits raw_result.splits option.splits)

text \<open>
  Claim C8, as the code has it. When the in-page evaluation of the first attempt throws
  an error of the target-closed class whose message does not contain \<open>Failed to fetch\<close>,
  \<open>fetch\<close> drops the browser handle and every cached session, and runs the operation
  once more on the pool so reset: \<open>recreateBrowser\<close> is called exactly once, and whatever
  the second attempt ends with (a failure of \<open>getSession\<close>, a failure of the evaluation,
  or an answer) is the end of the call. The test for \<open>Failed to fetch\<close> comes first in
  the \<open>catch\<close> block: an error whose message contains both is thrown on as a request
  failure, without recreating the browser and without a second attempt.
\<close>

theorem target_closed_is_retried_once:
  assumes "getSession p = (Inr session, p1)"
      and "evaluate 0 session = Inl errorMessage"
      and "isTargetClosedError errorMessage"
      and "\<not> stringIncludes errorMessage (js ''Failed to fetch'')"
  shows "recreateBrowser p1 = p1\<lparr>browser := None, sessions := []\<rparr> \<and>
         fetchUnderLock getSession evaluate parse platformKey p =
           (case getSession (recreateBrowser p1) of
              (Inl thrown, p2) \<Rightarrow>
                (Inl thrown, p2,
                 [GetSession, Evaluate 0, RecreateBrowser (browser p1), GetSession])
            | (Inr session', p2) \<Rightarrow>
                (case evaluate 1 session' of
                   Inl secondMessage \<Rightarrow>
                     (Inl (if stringIncludes
                                (if secondMessage \<noteq> [] then secondMessage
                                 else js ''unknown error'')
                                (js ''Failed to fetch'')
                           then RequestFailed platformKey else Thrown secondMessage),
                      p2,
                      [GetSession, Evaluate 0, RecreateBrowser (browser p1), GetSession,
                       Evaluate 1])
                 | Inr (RawResult ok httpStatus contentType responseBody) \<Rightarrow>
                     ((case parse responseBody of
                         Some json \<Rightarrow> Inr json
                       | None \<Rightarrow>
                           if looksLikeHtmlResponse contentType responseBody
                           then Inl (AuthInvalidInBrowser platformKey)
                           else Inl (NonJsonInBrowser httpStatus (previewBody responseBody))),
                      p2,
                      [GetSession, Evaluate 0, RecreateBrowser (browser p1), GetSession,
                       Evaluate 1])))"
proof -
  from assms(3) have ne: "errorMessage \<noteq> []"
    using isTargetClosedError_empty by auto
  have "fetchLoop getSession evaluate parse platformKey 0 p =
          (case fetchLoop getSession evaluate parse platformKey 1 (recreateBrowser p1) of
             (outcome, p2, events) \<Rightarrow>
               (outcome, p2, [GetSession, Evaluate 0, RecreateBrowser (browser p1)] @ events))"
    using assms ne by (subst fetchLoop.simps) (simp add: Let_def)
  then have "fetchUnderLock getSession evaluate parse platformKey p =
          (case fetchLoop getSession evaluate parse platformKey 1 (recreateBrowser p1) of
             (outcome, p2, events) \<Rightarrow>
               (outcome, p2, [GetSession, Evaluate 0, RecreateBrowser (browser p1)] @ events))"
    by (simp only: fetchUnderLock_def)
  then have main: "fetchUnderLock getSession evaluate parse platformKey p =
          (case fetchLoop getSession evaluate parse platformKey 1 (recreateBrowser p1) of
             (outcome, p2, events) \<Rightarrow>
               (outcome, p2, [GetSession, Evaluate 0, RecreateBrowser (browser p1)] @ events))" .
  have second: "fetchUnderLock getSession evaluate parse platformKey p =
           (case getSession (recreateBrowser p1) of
              (Inl thrown, p2) \<Rightarrow>
                (Inl thrown, p2,
                 [GetSession, Evaluate 0, RecreateBrowser (browser p1), GetSession])
            | (Inr session', p2) \<Rightarrow>
                (case evaluate 1 session' of
                   Inl secondMessage \<Rightarrow>
                     (Inl (if stringIncludes
                                (if secondMessage \<noteq> [] then secondMessage
                                 else js ''unknown error'')
                                (js ''Failed to fetch'')
                           then RequestFailed platformKey else Thrown secondMessage),
                      p2,
                      [GetSession, Evaluate 0, RecreateBrowser (browser p1), GetSession,
                       Evaluate 1])
                 | Inr (RawResult ok httpStatus contentType responseBody) \<Rightarrow>
                     ((case parse responseBody of
                         Some json \<Rightarrow> Inr json
                       | None \<Rightarrow>
                           if looksLikeHtmlResponse contentType responseBody
                           then Inl (AuthInvalidInBrowser platformKey)
                           else Inl (NonJsonInBrowser httpStatus (previewBody responseBody))),
                      p2,
                      [GetSession, Evaluate 0, RecreateBrowser (browser p1), GetSession,
                       Evaluate 1])))"
  proof (cases "getSession (recreateBrowser p1)")
    case (Pair r p2)
    show ?thesis
    proof (cases r)
      case (Inl thrown)
      with Pair show ?thesis
        unfolding main fetchLoop_second by (simp del: One_nat_def)
    next
      case (Inr session')
      show ?thesis
      proof (cases "evaluate 1 session'")
        case m: (Inl secondMessage)
        with Pair Inr show ?thesis
          unfolding main fetchLoop_second by (simp del: One_nat_def)
      next
        case raw: (Inr rawResult)
        obtain ok httpStatus contentType responseBody
          where rr: "rawResult = RawResult ok httpStatus contentType responseBody"
          by (cases rawResult)
        show ?thesis using Pair Inr raw rr
          unfolding main fetchLoop_second
          by (cases "parse responseBody") (simp_all del: One_nat_def)
      qed
    qed
  qed
  from recreateBrowser_eq[of p1] second show ?thesis by (intro conjI)
qed

theorem target_closed_is_retried_once_witness:
  "isTargetClosedError (js ''page.evaluate: Target page, context or browser has been closed'') \<and>
   \<not> stringIncludes (js ''page.evaluate: Target page, context or browser has been closed'')
        (js ''Failed to fetch'') \<and>
   fetchUnderLock
     (\<lambda>p. (Inr \<lparr>sessContext = 1, sessPage = 1, sessPlatformKey = Jimeng,
                 sessSessionId = js ''tok'', sessLastUsed = 0\<rparr>, p))
     (\<lambda>attempt s. if attempt = 0
        then Inl (js ''page.evaluate: Target page, context or browser has been closed'')
        else Inr (RawResult True 200 (js ''application/json'') (js ''{}'')))
     (\<lambda>body. Some (js ''json'')) Jimeng
     \<lparr>browser = Some 7, sessions = [], sessionLocks = []\<rparr>
   = (Inr (js ''json''), \<lparr>browser = None, sessions = [], sessionLocks = []\<rparr>,
      [GetSession, Evaluate 0, RecreateBrowser (Some 7), GetSession, Evaluate 1]) \<and>
   fetchUnderLock
     (\<lambda>p. (Inr \<lparr>sessContext = 1, sessPage = 1, sessPlatformKey = Jimeng,
                 sessSessionId = js ''tok'', sessLastUsed = 0\<rparr>, p))
     (\<lambda>attempt s. Inl (js ''page.evaluate: Target page, context or browser has been closed''))
     (\<lambda>body. Some (js ''json'')) Jimeng
     \<lparr>browser = Some 7, sessions = [], sessionLocks = []\<rparr>
   = (Inl (Thrown (js ''page.evaluate: Target page, context or browser has been closed'')),
      \<lparr>browser = None, sessions = [], sessionLocks = []\<rparr>,
      [GetSession, Evaluate 0, RecreateBrowser (Some 7), GetSession, Evaluate 1])"
proof -
  let ?m = "js ''page.evaluate: Target page, context or browser has been closed''"
  let ?s = "\<lparr>sessContext = 1, sessPage = 1, sessPlatformKey = Jimeng,
                 sessSessionId = js ''tok'', sessLastUsed = 0\<rparr>"
  let ?gs = "\<lambda>p::pool. (Inr ?s :: fetch_error + browser_session, p)"
  let ?ev1 = "\<lambda>(attempt::nat) (s::browser_session). if attempt = 0
        then (Inl ?m :: jsstr + raw_result)
        else Inr (RawResult True 200 (js ''application/json'') (js ''{}''))"
  let ?ev2 = "\<lambda>(attempt::nat) (s::browser_session). (Inl ?m :: jsstr + raw_result)"
  let ?p = "\<lparr>browser = Some 7, sessions = [], sessionLocks = []\<rparr>"
  have h1: "?gs ?p = (Inr ?s, ?p)" by simp
  have h2: "?ev1 0 ?s = Inl ?m" by simp
  have h2': "?ev2 0 ?s = Inl ?m" by simp
  have h3: "isTargetClosedError ?m" by (simp add: pool_eval)
  have h4: "\<not> stringIncludes ?m (js ''Failed to fetch'')" by (simp add: js_def)
  have h5: "?m \<noteq> []" by (simp add: js_def)
  from target_closed_is_retried_once[of ?gs ?p ?s ?p ?ev1 ?m "\<lambda>body. Some (js ''json'')" Jimeng,
         OF h1 h2 h3 h4]
       target_closed_is_retried_once[of ?gs ?p ?s ?p ?ev2 ?m "\<lambda>body. Some (js ''json'')" Jimeng,
         OF h1 h2' h3 h4]
       h3 h4 h5
  show ?thesis by (simp add: recreateBrowser_eq)
qed

theorem target_closed_counterexample:
  "isTargetClosedError (js ''Failed to fetch: Target closed'') \<and>
   fetchUnderLock
     (\<lambda>p. (Inr \<lparr>sessContext = 1, sessPage = 1, sessPlatformKey = Jimeng,
                 sessSessionId = js ''tok'', sessLastUsed = 0\<rparr>, p))
     (\<lambda>attempt s. if attempt = 0 then Inl (js ''Failed to fetch: Target closed'')
        else Inr (RawResult True 200 (js ''application/json'') (js ''{}'')))
     (\<lambda>body. Some (js ''json'')) Jimeng
     \<lparr>browser = Some 7, sessions = [], sessionLocks = []\<rparr>
   = (Inl (RequestFailed Jimeng), \<lparr>browser = Some 7, sessions = [], sessionLocks = []\<rparr>,
      [GetSession, Evaluate 0])"
  by (simp add: pool_eval fetchLoop.simps)

subsection \<open>The lock table\<close>

text \<open>A cached session makes \<open>closeSessionByKey\<close> delete the lock entry of its key.\<close>

lemma refresh_deletes_its_own_lock:
  assumes "map_of (sessions p) cacheKey = Some session"
  shows "fst (lockEnqueue cacheKey run2
            (closeSessionByKey cacheKey (snd (lockEnqueue cacheKey run1 p)))) = None"
    and "fst (lockEnqueue cacheKey run2 (snd (lockEnqueue cacheKey run1 p))) = Some run1"
  using assms
  by (simp_all add: lockEnqueue_def closeSessionByKey_def delete_conv' update_conv')

text \<open>
  Claim C9 at the code. A schedule of calls on one key with a cached session; every step
  is one synchronous stretch of the source. (1) \<open>refreshSession\<close> is called: it waits
  for nothing and stores its promise, 1. (2) \<open>fetch\<close> is called while the refresh runs:
  it queues behind promise 1 and stores promise 2. (3) The function of the refresh closes
  the session: \<open>closeSessionByKey\<close> deletes the session and with it the lock entry of
  the key, which held promise 2. (4) \<open>fetch\<close> is called once more: it finds no entry,
  waits for nothing and starts while the refresh is running; it finds no cached session,
  creates one, stores it and evaluates on its page. (5) The refresh fails to create its
  own session and its promise settles; its \<open>finally\<close> block leaves the entry of
  promise 3 alone. (6) The fetch queued in step 2 starts, finds the session of step 4 in
  the cache and evaluates on the same page, while the evaluation of step 4 is under
  way. Without step 3 the fetch of step 4 would have queued behind promise 2.
\<close>

theorem refresh_breaks_the_queue:
  "(let K = getSessionCacheKey (js ''tok'') Xyq (js '''');
        s0 = \<lparr>sessContext = 1, sessPage = 1, sessPlatformKey = Xyq,
              sessSessionId = js ''tok'', sessLastUsed = 0\<rparr>;
        s4 = \<lparr>sessContext = 2, sessPage = 2, sessPlatformKey = Xyq,
              sessSessionId = js ''tok'', sessLastUsed = 4000\<rparr>;
        p0 = \<lparr>browser = Some 7, sessions = [(K, s0)], sessionLocks = []\<rparr>;
        (previousOfRefresh, p1) = lockEnqueue K 1 p0;
        (previousOfQueuedFetch, p2) = lockEnqueue K 2 p1;
        p3 = closeSessionByKey K p2;
        (previousOfLateFetch, p4) = lockEnqueue K 3 p3;
        (cachedForLateFetch, p4') = lookupCachedSession (\<lambda>page. False) K 3000 p4;
        p4'' = storeSession K s4 p4';
        p5 = lockRelease K 1 p4'';
        (cachedForQueuedFetch, p6) = lookupCachedSession (\<lambda>page. False) K 50000 p5
    in previousOfRefresh = None \<and> previousOfQueuedFetch = Some 1 \<and>
       sessionLocks p3 = [] \<and> previousOfLateFetch = None \<and>
       fst (lockEnqueue K 3 p2) = Some 2 \<and>
       cachedForLateFetch = None \<and> sessionLocks p5 = [(K, 3)] \<and>
       map_option sessPage cachedForQueuedFetch = Some (sessPage s4))"
  by (simp add: Let_def lockEnqueue_def closeSessionByKey_def lookupCachedSession_def
      storeSession_def lockRelease_def)

section \<open>Properties of the Signing Primitives\<close>

text \<open>The order of the signed headers, for each set of headers that can occur.\<close>

lemma signed_names_sorted:
  "sortByKey (\<lambda>k. k) [js ''x-amz-date''] = [js ''x-amz-date'']"
  "sortByKey (\<lambda>k. k) [js ''x-amz-date'', js ''x-amz-security-token'']
     = [js ''x-amz-date'', js ''x-amz-security-token'']"
  "sortByKey (\<lambda>k. k) [js ''x-amz-date'', js ''x-amz-content-sha256'']
     = [js ''x-amz-content-sha256'', js ''x-amz-date'']"
  "sortByKey (\<lambda>k. k) [js ''x-amz-date'', js ''x-amz-security-token'', js ''x-amz-content-sha256'']
     = [js ''x-amz-content-sha256'', js ''x-amz-date'', js ''x-amz-security-token'']"
  by (simp_all add: sortByKey_def js_def)

lemma signed_names_lower:
  "toLowerCase (js ''x-amz-date'') = js ''x-amz-date''"
  "toLowerCase (js ''x-amz-security-token'') = js ''x-amz-security-token''"
  "toLowerCase (js ''x-amz-content-sha256'') = js ''x-amz-content-sha256''"
  by (simp_all add: toLowerCase_def js_def)

lemma headers_sorted:
  "sortByKey (\<lambda>(k, v). toLowerCase k) [(js ''x-amz-date'', t)] = [(js ''x-amz-date'', t)]"
  "sortByKey (\<lambda>(k, v). toLowerCase k)
     [(js ''x-amz-date'', t), (js ''x-amz-security-token'', s)]
   = [(js ''x-amz-date'', t), (js ''x-amz-security-token'', s)]"
  "sortByKey (\<lambda>(k, v). toLowerCase k)
     [(js ''x-amz-date'', t), (js ''x-amz-content-sha256'', h)]
   = [(js ''x-amz-content-sha256'', h), (js ''x-amz-date'', t)]"
  "sortByKey (\<lambda>(k, v). toLowerCase k)
     [(js ''x-amz-date'', t), (js ''x-amz-security-token'', s), (js ''x-amz-content-sha256'', h)]
   = [(js ''x-amz-content-sha256'', h), (js ''x-amz-date'', t), (js ''x-amz-security-token'', s)]"
  by (simp_all add: sortByKey_def js_def toLowerCase_def)

text \<open>The two header strings of the canonical request, written out.\<close>

lemma signedHeaders_eq:
  "signedHeaders (headersToSign rt method timestamp sessionToken payload) =
     (if payloadIsHashed rt method payload then js ''x-amz-content-sha256'' @ js '';'' else [])
     @ js ''x-amz-date''
     @ (if sessionToken \<noteq> [] then js '';'' @ js ''x-amz-security-token'' else [])"
  by (simp add: signedHeaders_def headersToSign_def signed_names_lower signed_names_sorted)

lemma canonicalHeaders_eq:
  "canonicalHeaders (headersToSign rt method timestamp sessionToken payload) =
     hashLine rt method payload
     @ js ''x-amz-date'' @ js '':'' @ trim timestamp @ [NEWLINE]
     @ tokenLine sessionToken"
  by (simp add: canonicalHeaders_def headersToSign_def headers_sorted signed_names_lower
        hashLine_def tokenLine_def)

lemma canonicalRequest_eq:
  "canonicalRequest rt method urlPathname searchParams timestamp sessionToken payload =
     (toUpperCase rt method @ [NEWLINE]
      @ (if urlPathname \<noteq> [] then urlPathname else js ''/'') @ [NEWLINE]
      @ canonicalQueryString searchParams @ [NEWLINE])
     @ hashLine rt method payload
     @ (js ''x-amz-date'' @ js '':'' @ trim timestamp @ [NEWLINE])
     @ tokenLine sessionToken
     @ [NEWLINE]
     @ (if payloadIsHashed rt method payload then js ''x-amz-content-sha256'' @ js '';'' else [])
     @ js ''x-amz-date''
     @ (if sessionToken \<noteq> [] then js '';'' @ js ''x-amz-security-token'' else [])
     @ [NEWLINE]
     @ payloadHash rt method payload"
  unfolding canonicalRequest_def Let_def canonicalHeaders_eq signedHeaders_eq
  by simp

text \<open>Which changes of the session token and of the payload the canonical request keeps.\<close>

lemma canonicalRequest_token:
  "canonicalRequest rt method urlPathname searchParams timestamp sessionToken payload =
   canonicalRequest rt method urlPathname searchParams timestamp sessionToken' payload
   \<longleftrightarrow> sessionToken = sessionToken' \<or>
       (sessionToken \<noteq> [] \<and> sessionToken' \<noteq> [] \<and> trim sessionToken = trim sessionToken')"
proof (cases "sessionToken = []"; cases "sessionToken' = []")
  assume "sessionToken = []" "sessionToken' = []"
  then show ?thesis by simp
next
  assume a: "sessionToken = []" "sessionToken' \<noteq> []"
  have "NEWLINE # xs \<noteq> js ''x-amz-security-token'' @ ys" for xs ys
    by (simp add: js_def NEWLINE_def)
  with a show ?thesis
    unfolding canonicalRequest_eq tokenLine_def by (simp del: append_assoc)
next
  assume a: "sessionToken \<noteq> []" "sessionToken' = []"
  have "js ''x-amz-security-token'' @ ys \<noteq> NEWLINE # xs" for xs ys
    by (simp add: js_def NEWLINE_def)
  with a show ?thesis
    unfolding canonicalRequest_eq tokenLine_def by simp
next
  assume a: "sessionToken \<noteq> []" "sessionToken' \<noteq> []"
  then show ?thesis
    unfolding canonicalRequest_eq tokenLine_def by auto
qed

lemma canonicalRequest_not_post:
  assumes "toUpperCase rt method \<noteq> js ''POST''"
  shows "canonicalRequest rt method urlPathname searchParams timestamp sessionToken payload =
         canonicalRequest rt method urlPathname searchParams timestamp sessionToken payload'"
  using assms unfolding canonicalRequest_eq hashLine_def payloadHash_def payloadIsHashed_def
  by simp

lemma canonicalRequest_ends:
  "\<exists>front. canonicalRequest rt method urlPathname searchParams timestamp sessionToken payload =
     front @ payloadHash rt method payload"
  unfolding canonicalRequest_eq
  by (metis append_assoc)

lemma canonicalRequest_payload:
  assumes post: "toUpperCase rt method = js ''POST''"
      and diff: "payload \<noteq> payload'"
      and sep: "separates (sha256Hex rt) payload payload'"
      and len: "length (sha256Hex rt payload) = length (sha256Hex rt payload')"
  shows "canonicalRequest rt method urlPathname searchParams timestamp sessionToken payload \<noteq>
         canonicalRequest rt method urlPathname searchParams timestamp sessionToken payload'"
proof (cases "payload = [] \<or> payload' = []")
  case True
  have d: "js ''x-amz-date'' @ xs \<noteq> js ''x-amz-content-sha256'' @ ys" for xs ys
    by (simp add: js_def)
  from True diff consider "payload = []" "payload' \<noteq> []" | "payload \<noteq> []" "payload' = []"
    by auto
  then show ?thesis
  proof cases
    case 1
    with post d show ?thesis
      unfolding canonicalRequest_eq hashLine_def payloadIsHashed_def by simp
  next
    case 2
    with post d[symmetric] show ?thesis
      unfolding canonicalRequest_eq hashLine_def payloadIsHashed_def by simp
  qed
next
  case False
  with post have h: "payloadHash rt method payload = sha256Hex rt payload"
      "payloadHash rt method payload' = sha256Hex rt payload'"
    by (simp_all add: payloadHash_def payloadIsHashed_def)
  from sep diff have ne: "sha256Hex rt payload \<noteq> sha256Hex rt payload'"
    by (simp add: separates_def)
  obtain f where f: "canonicalRequest rt method urlPathname searchParams timestamp
      sessionToken payload = f @ sha256Hex rt payload"
    using canonicalRequest_ends[of rt "method" urlPathname searchParams timestamp
      sessionToken payload] h by auto
  obtain f' where f': "canonicalRequest rt method urlPathname searchParams timestamp
      sessionToken payload' = f' @ sha256Hex rt payload'"
    using canonicalRequest_ends[of rt "method" urlPathname searchParams timestamp
      sessionToken payload'] h by auto
  show ?thesis unfolding f f' using len ne by simp
qed

text \<open>
  The string to sign gives back the \<open>x-amz-date\<close> value and the digest of the canonical
  request, when the digests have one length.
\<close>

lemma credentialScope_length:
  "length (credentialScope timestamp) = min 8 (length timestamp) + 31"
  by (simp add: credentialScope_def slice_def js_def)

lemma stringToSign_inject:
  assumes eq: "stringToSign rt method urlPathname searchParams timestamp sessionToken payload =
               stringToSign rt method urlPathname searchParams timestamp' sessionToken' payload'"
      and len: "length (sha256Hex rt (canonicalRequest rt method urlPathname searchParams
                  timestamp sessionToken payload)) =
                length (sha256Hex rt (canonicalRequest rt method urlPathname searchParams
                  timestamp' sessionToken' payload'))"
  shows "timestamp = timestamp' \<and>
         sha256Hex rt (canonicalRequest rt method urlPathname searchParams
           timestamp sessionToken payload) =
         sha256Hex rt (canonicalRequest rt method urlPathname searchParams
           timestamp' sessionToken' payload')"
proof -
  from eq have "length (stringToSign rt method urlPathname searchParams timestamp
                  sessionToken payload) =
                length (stringToSign rt method urlPathname searchParams timestamp'
                  sessionToken' payload')"
    by simp
  with len have "length timestamp + min 8 (length timestamp) =
                 length timestamp' + min 8 (length timestamp')"
    by (simp add: stringToSign_def credentialScope_length)
  then have l: "length timestamp = length timestamp'" by arith
  from eq have "timestamp @ [NEWLINE] @ credentialScope timestamp @ [NEWLINE]
                  @ sha256Hex rt (canonicalRequest rt method urlPathname searchParams
                      timestamp sessionToken payload) =
                timestamp' @ [NEWLINE] @ credentialScope timestamp' @ [NEWLINE]
                  @ sha256Hex rt (canonicalRequest rt method urlPathname searchParams
                      timestamp' sessionToken' payload')"
    by (simp add: stringToSign_def)
  with l show ?thesis by auto
qed

text \<open>
  On values where the digests separate, the signature, and so the authorization string,
  gives back the \<open>x-amz-date\<close> value and the canonical request.
\<close>

lemma signature_inject:
  assumes sep: "digestsSeparate rt method urlPathname searchParams secretAccessKey
                  timestamp sessionToken payload timestamp' sessionToken' payload'"
      and eq: "signature rt method urlPathname searchParams secretAccessKey
                 timestamp sessionToken payload =
               signature rt method urlPathname searchParams secretAccessKey
                 timestamp' sessionToken' payload'"
  shows "timestamp = timestamp' \<and>
         canonicalRequest rt method urlPathname searchParams timestamp sessionToken payload =
         canonicalRequest rt method urlPathname searchParams timestamp' sessionToken' payload'"
proof -
  from sep eq have "stringToSign rt method urlPathname searchParams timestamp
                      sessionToken payload =
                    stringToSign rt method urlPathname searchParams timestamp'
                      sessionToken' payload'"
    by (auto simp: digestsSeparate_def Let_def separates_def signature_def)
  moreover from sep have "length (sha256Hex rt (canonicalRequest rt method urlPathname
        searchParams timestamp sessionToken payload)) =
      length (sha256Hex rt (canonicalRequest rt method urlPathname searchParams
        timestamp' sessionToken' payload'))"
    by (simp add: digestsSeparate_def Let_def)
  ultimately have "timestamp = timestamp' \<and>
      sha256Hex rt (canonicalRequest rt method urlPathname searchParams
        timestamp sessionToken payload) =
      sha256Hex rt (canonicalRequest rt method urlPathname searchParams
        timestamp' sessionToken' payload')"
    by (rule stringToSign_inject)
  with sep show ?thesis
    by (auto simp: digestsSeparate_def Let_def separates_def)
qed

lemma authorization_inject:
  assumes sep: "digestsSeparate rt method urlPathname searchParams secretAccessKey
                  timestamp sessionToken payload timestamp' sessionToken' payload'"
      and url: "parseUrl rt url = Some (urlPathname, searchParams)"
      and date: "map_of headers (js ''x-amz-date'') = Some timestamp"
      and date': "map_of headers' (js ''x-amz-date'') = Some timestamp'"
      and eq: "createAWSSignature rt method url headers accessKeyId secretAccessKey
                 sessionToken payload =
               createAWSSignature rt method url headers' accessKeyId secretAccessKey
                 sessionToken' payload'"
  shows "signature rt method urlPathname searchParams secretAccessKey
           timestamp sessionToken payload =
         signature rt method urlPathname searchParams secretAccessKey
           timestamp' sessionToken' payload'"
proof -
  let ?s = "signature rt method urlPathname searchParams secretAccessKey
              timestamp sessionToken payload"
  let ?s' = "signature rt method urlPathname searchParams secretAccessKey
               timestamp' sessionToken' payload'"
  from sep have l: "length ?s = length ?s'"
    by (simp add: digestsSeparate_def Let_def signature_def)
  obtain f where f: "createAWSSignature rt method url headers accessKeyId secretAccessKey
      sessionToken payload = Inr (f @ ?s)"
    unfolding createAWSSignature_def url date by (simp del: append_assoc)
  obtain f' where f': "createAWSSignature rt method url headers' accessKeyId secretAccessKey
      sessionToken' payload' = Inr (f' @ ?s')"
    unfolding createAWSSignature_def url date' by (simp del: append_assoc)
  from eq l show ?thesis unfolding f f' by simp
qed

text \<open>The two changes of an argument that the authorization string does not show.\<close>

lemma signature_token_whitespace:
  assumes "sessionToken \<noteq> []" and "sessionToken' \<noteq> []"
      and "trim sessionToken = trim sessionToken'"
  shows "createAWSSignature rt method url headers accessKeyId secretAccessKey sessionToken payload =
         createAWSSignature rt method url headers accessKeyId secretAccessKey sessionToken' payload"
proof -
  have "canonicalRequest rt method urlPathname searchParams timestamp sessionToken payload =
        canonicalRequest rt method urlPathname searchParams timestamp sessionToken' payload"
    for urlPathname searchParams timestamp
    using assms by (simp add: canonicalRequest_token)
  with assms(1,2) show ?thesis
    by (simp add: createAWSSignature_def signature_def stringToSign_def signedHeaders_eq
          split: option.splits)
qed

lemma signature_payload_unused:
  assumes "toUpperCase rt method \<noteq> js ''POST''"
  shows "createAWSSignature rt method url headers accessKeyId secretAccessKey sessionToken payload =
         createAWSSignature rt method url headers accessKeyId secretAccessKey sessionToken payload'"
proof -
  have "canonicalRequest rt method urlPathname searchParams timestamp sessionToken payload =
        canonicalRequest rt method urlPathname searchParams timestamp sessionToken payload'"
    for urlPathname searchParams timestamp
    using assms by (rule canonicalRequest_not_post)
  with assms show ?thesis
    by (simp add: createAWSSignature_def signature_def stringToSign_def signedHeaders_eq
          payloadIsHashed_def split: option.splits)
qed

text \<open>
  Claim C6, as the code has it. \<open>createAWSSignature\<close> is a function of its arguments
  and of nothing else, so two calls on the same arguments return the same authorization
  string. Two changes of an argument leave the string as it was: one of the session token
  between two non-empty values with the same trimmed form, since the token is signed
  trimmed, and any change of the payload when the upper-cased method is not \<open>POST\<close>, since
  the payload is then not signed. Every other change of the \<open>x-amz-date\<close> value (which
  enters the string to sign and the credential scope as it is, not trimmed), of the
  session token (an empty token against a non-empty one included, blank or not) or of
  the payload changes the signature and with it the authorization string, on every
  input where SHA-256 and HMAC-SHA256 separate the values of the two calls
  (\<open>digestsSeparate\<close>).
\<close>

theorem signature_follows_signed_values:
  "(sessionToken \<noteq> [] \<and> sessionToken' \<noteq> [] \<and> trim sessionToken = trim sessionToken' \<longrightarrow>
      createAWSSignature rt method url headers accessKeyId secretAccessKey sessionToken payload =
      createAWSSignature rt method url headers accessKeyId secretAccessKey sessionToken' payload)
   \<and> (toUpperCase rt method \<noteq> js ''POST'' \<longrightarrow>
      createAWSSignature rt method url headers accessKeyId secretAccessKey sessionToken payload =
      createAWSSignature rt method url headers accessKeyId secretAccessKey sessionToken payload')
   \<and> (parseUrl rt url = Some (urlPathname, searchParams) \<and>
       map_of headers (js ''x-amz-date'') = Some timestamp \<and>
       map_of headers' (js ''x-amz-date'') = Some timestamp' \<longrightarrow>
      (timestamp \<noteq> timestamp' \<and>
       digestsSeparate rt method urlPathname searchParams secretAccessKey
         timestamp sessionToken payload timestamp' sessionToken payload \<longrightarrow>
         signature rt method urlPathname searchParams secretAccessKey
           timestamp sessionToken payload \<noteq>
         signature rt method urlPathname searchParams secretAccessKey
           timestamp' sessionToken payload \<and>
         createAWSSignature rt method url headers accessKeyId secretAccessKey
           sessionToken payload \<noteq>
         createAWSSignature rt method url headers' accessKeyId secretAccessKey
           sessionToken payload)
      \<and> (sessionToken \<noteq> sessionToken' \<and>
         \<not> (sessionToken \<noteq> [] \<and> sessionToken' \<noteq> [] \<and> trim sessionToken = trim sessionToken') \<and>
         digestsSeparate rt method urlPathname searchParams secretAccessKey
           timestamp sessionToken payload timestamp sessionToken' payload \<longrightarrow>
         signature rt method urlPathname searchParams secretAccessKey
           timestamp sessionToken payload \<noteq>
         signature rt method urlPathname searchParams secretAccessKey
           timestamp sessionToken' payload \<and>
         createAWSSignature rt method url headers accessKeyId secretAccessKey
           sessionToken payload \<noteq>
         createAWSSignature rt method url headers accessKeyId secretAccessKey
           sessionToken' payload)
      \<and> (payload \<noteq> payload' \<and> toUpperCase rt method = js ''POST'' \<and>
         digestsSeparate rt method urlPathname searchParams secretAccessKey
           timestamp sessionToken payload timestamp sessionToken payload' \<longrightarrow>
         signature rt method urlPathname searchParams secretAccessKey
           timestamp sessionToken payload \<noteq>
         signature rt method urlPathname searchParams secretAccessKey
           timestamp sessionToken payload' \<and>
         createAWSSignature rt method url headers accessKeyId secretAccessKey
           sessionToken payload \<noteq>
         createAWSSignature rt method url headers accessKeyId secretAccessKey
           sessionToken payload'))"
proof (intro conjI impI)
  assume "sessionToken \<noteq> [] \<and> sessionToken' \<noteq> [] \<and> trim sessionToken = trim sessionToken'"
  then show "createAWSSignature rt method url headers accessKeyId secretAccessKey
               sessionToken payload =
             createAWSSignature rt method url headers accessKeyId secretAccessKey
               sessionToken' payload"
    by (intro signature_token_whitespace) simp_all
next
  assume "toUpperCase rt method \<noteq> js ''POST''"
  then show "createAWSSignature rt method url headers accessKeyId secretAccessKey
               sessionToken payload =
             createAWSSignature rt method url headers accessKeyId secretAccessKey
               sessionToken payload'"
    by (rule signature_payload_unused)
next
  assume env: "parseUrl rt url = Some (urlPathname, searchParams) \<and>
       map_of headers (js ''x-amz-date'') = Some timestamp \<and>
       map_of headers' (js ''x-amz-date'') = Some timestamp'"
    and h: "timestamp \<noteq> timestamp' \<and>
       digestsSeparate rt method urlPathname searchParams secretAccessKey
         timestamp sessionToken payload timestamp' sessionToken payload"
  from h signature_inject[of rt "method" urlPathname searchParams secretAccessKey
      timestamp sessionToken payload timestamp' sessionToken payload]
  show s: "signature rt method urlPathname searchParams secretAccessKey
           timestamp sessionToken payload \<noteq>
         signature rt method urlPathname searchParams secretAccessKey
           timestamp' sessionToken payload"
    by blast
  from env h s authorization_inject[of rt "method" urlPathname searchParams secretAccessKey
      timestamp sessionToken payload timestamp' sessionToken payload url headers headers'
      accessKeyId]
  show "createAWSSignature rt method url headers accessKeyId secretAccessKey
           sessionToken payload \<noteq>
         createAWSSignature rt method url headers' accessKeyId secretAccessKey
           sessionToken payload"
    by blast
next
  assume env: "parseUrl rt url = Some (urlPathname, searchParams) \<and>
       map_of headers (js ''x-amz-date'') = Some timestamp \<and>
       map_of headers' (js ''x-amz-date'') = Some timestamp'"
    and h: "sessionToken \<noteq> sessionToken' \<and>
         \<not> (sessionToken \<noteq> [] \<and> sessionToken' \<noteq> [] \<and> trim sessionToken = trim sessionToken') \<and>
         digestsSeparate rt method urlPathname searchParams secretAccessKey
           timestamp sessionToken payload timestamp sessionToken' payload"
  from h have "canonicalRequest rt method urlPathname searchParams timestamp
                 sessionToken payload \<noteq>
               canonicalRequest rt method urlPathname searchParams timestamp
                 sessionToken' payload"
    by (simp add: canonicalRequest_token)
  with h signature_inject[of rt "method" urlPathname searchParams secretAccessKey
      timestamp sessionToken payload timestamp sessionToken' payload]
  show s: "signature rt method urlPathname searchParams secretAccessKey
           timestamp sessionToken payload \<noteq>
         signature rt method urlPathname searchParams secretAccessKey
           timestamp sessionToken' payload"
    by blast
  from env h s authorization_inject[of rt "method" urlPathname searchParams secretAccessKey
      timestamp sessionToken payload timestamp sessionToken' payload url headers headers
      accessKeyId]
  show "createAWSSignature rt method url headers accessKeyId secretAccessKey
           sessionToken payload \<noteq>
         createAWSSignature rt method url headers accessKeyId secretAccessKey
           sessionToken' payload"
    by blast
next
  assume env: "parseUrl rt url = Some (urlPathname, searchParams) \<and>
       map_of headers (js ''x-amz-date'') = Some timestamp \<and>
       map_of headers' (js ''x-amz-date'') = Some timestamp'"
    and h: "payload \<noteq> payload' \<and> toUpperCase rt method = js ''POST'' \<and>
         digestsSeparate rt method urlPathname searchParams secretAccessKey
           timestamp sessionToken payload timestamp sessionToken payload'"
  from h have "canonicalRequest rt method urlPathname searchParams timestamp
                 sessionToken payload \<noteq>
               canonicalRequest rt method urlPathname searchParams timestamp
                 sessionToken payload'"
    by (intro canonicalRequest_payload) (simp_all add: digestsSeparate_def Let_def)
  with h signature_inject[of rt "method" urlPathname searchParams secretAccessKey
      timestamp sessionToken payload timestamp sessionToken payload']
  show s: "signature rt method urlPathname searchParams secretAccessKey
           timestamp sessionToken payload \<noteq>
         signature rt method urlPathname searchParams secretAccessKey
           timestamp sessionToken payload'"
    by blast
  from env h s authorization_inject[of rt "method" urlPathname searchParams secretAccessKey
      timestamp sessionToken payload timestamp sessionToken payload' url headers headers
      accessKeyId]
  show "createAWSSignature rt method url headers accessKeyId secretAccessKey
           sessionToken payload \<noteq>
         createAWSSignature rt method url headers accessKeyId secretAccessKey
           sessionToken payload'"
    by blast
qed

lemmas signing_eval =
  createAWSSignature_def signature_def stringToSign_def canonicalRequest_def
  canonicalQueryString_def headersToSign_def payloadHash_def payloadIsHashed_def
  signedHeaders_def canonicalHeaders_def credentialScope_def kSigning_def toUpperCase_def
  toLowerCase_def sortByKey_def js_def trim_def isWhiteSpace_def slice_def NEWLINE_def
  digestsSeparate_def separates_def exampleRuntime_def Let_def

theorem signature_follows_signed_values_witness:
  "(js ''STSeyJ '' \<noteq> [] \<and> js ''STSeyJ'' \<noteq> [] \<and> trim (js ''STSeyJ '') = trim (js ''STSeyJ'') \<and>
    createAWSSignature exampleRuntime (js ''POST'')
      (js ''https://imagex.bytedanceapi.com/?Action=CommitImageUpload'')
      [(js ''x-amz-date'', js ''20260101T000000Z'')] (js ''AKTP'') (js ''secret'')
      (js ''STSeyJ '') (js ''{k:1}'') =
    createAWSSignature exampleRuntime (js ''POST'')
      (js ''https://imagex.bytedanceapi.com/?Action=CommitImageUpload'')
      [(js ''x-amz-date'', js ''20260101T000000Z'')] (js ''AKTP'') (js ''secret'')
      (js ''STSeyJ'') (js ''{k:1}''))
   \<and> (toUpperCase exampleRuntime (js ''get'') \<noteq> js ''POST'' \<and>
    createAWSSignature exampleRuntime (js ''get'')
      (js ''https://imagex.bytedanceapi.com/?Action=CommitImageUpload'')
      [(js ''x-amz-date'', js ''20260101T000000Z'')] (js ''AKTP'') (js ''secret'')
      (js ''STSeyJ'') (js ''{k:1}'') =
    createAWSSignature exampleRuntime (js ''get'')
      (js ''https://imagex.bytedanceapi.com/?Action=CommitImageUpload'')
      [(js ''x-amz-date'', js ''20260101T000000Z'')] (js ''AKTP'') (js ''secret'')
      (js ''STSeyJ'') (js ''{k:2}''))
   \<and> (js ''20260101T000000Z'' \<noteq> js ''20260101T000001Z'' \<and>
    digestsSeparate exampleRuntime (js ''post'') (js ''/'')
      [(js ''Action'', js ''CommitImageUpload'')] (js ''secret'')
      (js ''20260101T000000Z'') (js ''STSeyJ'') (js ''{k:1}'')
      (js ''20260101T000001Z'') (js ''STSeyJ'') (js ''{k:1}'') \<and>
    createAWSSignature exampleRuntime (js ''post'')
      (js ''https://imagex.bytedanceapi.com/?Action=CommitImageUpload'')
      [(js ''x-amz-date'', js ''20260101T000000Z'')] (js ''AKTP'') (js ''secret'')
      (js ''STSeyJ'') (js ''{k:1}'') \<noteq>
    createAWSSignature exampleRuntime (js ''post'')
      (js ''https://imagex.bytedanceapi.com/?Action=CommitImageUpload'')
      [(js ''x-amz-date'', js ''20260101T000001Z'')] (js ''AKTP'') (js ''secret'')
      (js ''STSeyJ'') (js ''{k:1}''))
   \<and> (js ''STSeyJ'' \<noteq> js ''STSeyK'' \<and> trim (js ''STSeyJ'') \<noteq> trim (js ''STSeyK'') \<and>
    digestsSeparate exampleRuntime (js ''post'') (js ''/'')
      [(js ''Action'', js ''CommitImageUpload'')] (js ''secret'')
      (js ''20260101T000000Z'') (js ''STSeyJ'') (js ''{k:1}'')
      (js ''20260101T000000Z'') (js ''STSeyK'') (js ''{k:1}'') \<and>
    createAWSSignature exampleRuntime (js ''post'')
      (js ''https://imagex.bytedanceapi.com/?Action=CommitImageUpload'')
      [(js ''x-amz-date'', js ''20260101T000000Z'')] (js ''AKTP'') (js ''secret'')
      (js ''STSeyJ'') (js ''{k:1}'') \<noteq>
    createAWSSignature exampleRuntime (js ''post'')
      (js ''https://imagex.bytedanceapi.com/?Action=CommitImageUpload'')
      [(js ''x-amz-date'', js ''20260101T000000Z'')] (js ''AKTP'') (js ''secret'')
      (js ''STSeyK'') (js ''{k:1}''))
   \<and> (js ''{k:1}'' \<noteq> js ''{k:2}'' \<and> toUpperCase exampleRuntime (js ''post'') = js ''POST'' \<and>
    digestsSeparate exampleRuntime (js ''post'') (js ''/'')
      [(js ''Action'', js ''CommitImageUpload'')] (js ''secret'')
      (js ''20260101T000000Z'') (js ''STSeyJ'') (js ''{k:1}'')
      (js ''20260101T000000Z'') (js ''STSeyJ'') (js ''{k:2}'') \<and>
    createAWSSignature exampleRuntime (js ''post'')
      (js ''https://imagex.bytedanceapi.com/?Action=CommitImageUpload'')
      [(js ''x-amz-date'', js ''20260101T000000Z'')] (js ''AKTP'') (js ''secret'')
      (js ''STSeyJ'') (js ''{k:1}'') \<noteq>
    createAWSSignature exampleRuntime (js ''post'')
      (js ''https://imagex.bytedanceapi.com/?Action=CommitImageUpload'')
      [(js ''x-amz-date'', js ''20260101T000000Z'')] (js ''AKTP'') (js ''secret'')
      (js ''STSeyJ'') (js ''{k:2}''))"
proof -
  let ?url = "js ''https://imagex.bytedanceapi.com/?Action=CommitImageUpload''"
  let ?query = "[(js ''Action'', js ''CommitImageUpload'')]"
  let ?date = "js ''20260101T000000Z''"
  let ?date' = "js ''20260101T000001Z''"
  have env: "parseUrl exampleRuntime ?url = Some (js ''/'', ?query)"
      "map_of [(js ''x-amz-date'', ?date)] (js ''x-amz-date'') = Some ?date"
      "map_of [(js ''x-amz-date'', ?date')] (js ''x-amz-date'') = Some ?date'"
    by (simp_all add: exampleRuntime_def)
  have tok: "js ''STSeyJ '' \<noteq> []" "js ''STSeyJ'' \<noteq> []"
      "trim (js ''STSeyJ '') = trim (js ''STSeyJ'')"
      "js ''STSeyJ'' \<noteq> js ''STSeyK''" "trim (js ''STSeyJ'') \<noteq> trim (js ''STSeyK'')"
    by (simp_all add: js_def trim_def isWhiteSpace_def)
  have meth: "toUpperCase exampleRuntime (js ''get'') \<noteq> js ''POST''"
      "toUpperCase exampleRuntime (js ''post'') = js ''POST''"
    by (simp_all add: js_def toUpperCase_def)
  have diff: "?date \<noteq> ?date'" "js ''{k:1}'' \<noteq> js ''{k:2}''"
    by (simp_all add: js_def)
  have sep_date: "digestsSeparate exampleRuntime (js ''post'') (js ''/'') ?query (js ''secret'')
      ?date (js ''STSeyJ'') (js ''{k:1}'') ?date' (js ''STSeyJ'') (js ''{k:1}'')"
    by (simp add: signing_eval)
  have sep_tok: "digestsSeparate exampleRuntime (js ''post'') (js ''/'') ?query (js ''secret'')
      ?date (js ''STSeyJ'') (js ''{k:1}'') ?date (js ''STSeyK'') (js ''{k:1}'')"
    by (simp add: signing_eval)
  have sep_pay: "digestsSeparate exampleRuntime (js ''post'') (js ''/'') ?query (js ''secret'')
      ?date (js ''STSeyJ'') (js ''{k:1}'') ?date (js ''STSeyJ'') (js ''{k:2}'')"
    by (simp add: signing_eval)
  let ?hd = "[(js ''x-amz-date'', ?date)]"
  let ?hd' = "[(js ''x-amz-date'', ?date')]"
  from signature_follows_signed_values[of "js ''STSeyJ ''" "js ''STSeyJ''" exampleRuntime
      "js ''POST''" ?url ?hd "js ''AKTP''" "js ''secret''" "js ''{k:1}''" "js ''{k:1}''"
      "js ''/''" ?query ?date ?hd ?date] tok
  have c1: "createAWSSignature exampleRuntime (js ''POST'') ?url
      ?hd (js ''AKTP'') (js ''secret'') (js ''STSeyJ '') (js ''{k:1}'') =
    createAWSSignature exampleRuntime (js ''POST'') ?url
      ?hd (js ''AKTP'') (js ''secret'') (js ''STSeyJ'') (js ''{k:1}'')"
    by blast
  from signature_follows_signed_values[of "js ''STSeyJ''" "js ''STSeyJ''" exampleRuntime
      "js ''get''" ?url ?hd "js ''AKTP''" "js ''secret''" "js ''{k:1}''" "js ''{k:2}''"
      "js ''/''" ?query ?date ?hd ?date] meth
  have c2: "createAWSSignature exampleRuntime (js ''get'') ?url
      ?hd (js ''AKTP'') (js ''secret'') (js ''STSeyJ'') (js ''{k:1}'') =
    createAWSSignature exampleRuntime (js ''get'') ?url
      ?hd (js ''AKTP'') (js ''secret'') (js ''STSeyJ'') (js ''{k:2}'')"
    by blast
  from signature_follows_signed_values[of "js ''STSeyJ''" "js ''STSeyJ''" exampleRuntime
      "js ''post''" ?url ?hd "js ''AKTP''" "js ''secret''" "js ''{k:1}''" "js ''{k:1}''"
      "js ''/''" ?query ?date ?hd' ?date'] env diff sep_date
  have c3: "createAWSSignature exampleRuntime (js ''post'') ?url
      ?hd (js ''AKTP'') (js ''secret'') (js ''STSeyJ'') (js ''{k:1}'') \<noteq>
    createAWSSignature exampleRuntime (js ''post'') ?url
      ?hd' (js ''AKTP'') (js ''secret'') (js ''STSeyJ'') (js ''{k:1}'')"
    by blast
  from signature_follows_signed_values[of "js ''STSeyJ''" "js ''STSeyK''" exampleRuntime
      "js ''post''" ?url ?hd "js ''AKTP''" "js ''secret''" "js ''{k:1}''" "js ''{k:1}''"
      "js ''/''" ?query ?date ?hd ?date] env tok sep_tok
  have c4: "createAWSSignature exampleRuntime (js ''post'') ?url
      ?hd (js ''AKTP'') (js ''secret'') (js ''STSeyJ'') (js ''{k:1}'') \<noteq>
    createAWSSignature exampleRuntime (js ''post'') ?url
      ?hd (js ''AKTP'') (js ''secret'') (js ''STSeyK'') (js ''{k:1}'')"
    by blast
  from signature_follows_signed_values[of "js ''STSeyJ''" "js ''STSeyJ''" exampleRuntime
      "js ''post''" ?url ?hd "js ''AKTP''" "js ''secret''" "js ''{k:1}''" "js ''{k:2}''"
      "js ''/''" ?query ?date ?hd ?date] env diff meth sep_pay
  have c5: "createAWSSignature exampleRuntime (js ''post'') ?url
      ?hd (js ''AKTP'') (js ''secret'') (js ''STSeyJ'') (js ''{k:1}'') \<noteq>
    createAWSSignature exampleRuntime (js ''post'') ?url
      ?hd (js ''AKTP'') (js ''secret'') (js ''STSeyJ'') (js ''{k:2}'')"
    by blast
  from tok meth diff sep_date sep_tok sep_pay c1 c2 c3 c4 c5 show ?thesis by blast
qed

text \<open>
  Against the claim as the specification words it: the payload of a request that is not
  a \<open>POST\<close> and the whitespace around the session token change, and the authorization
  string does not, whatever the digests are.
\<close>

theorem signature_sensitivity_counterexample:
  "js ''a'' \<noteq> js ''b'' \<and>
   (\<forall>rt. createAWSSignature rt (js ''GET'')
            (js ''https://imagex.bytedanceapi.com/?Action=ApplyImageUpload'')
            [(js ''x-amz-date'', js ''20260101T000000Z'')] (js ''AKTP'') (js ''secret'')
            (js ''STSeyJ'') (js ''a'') =
         createAWSSignature rt (js ''GET'')
            (js ''https://imagex.bytedanceapi.com/?Action=ApplyImageUpload'')
            [(js ''x-amz-date'', js ''20260101T000000Z'')] (js ''AKTP'') (js ''secret'')
            (js ''STSeyJ'') (js ''b'')) \<and>
   js ''STSeyJ'' \<noteq> js ''STSeyJ '' \<and>
   (\<forall>rt. createAWSSignature rt (js ''POST'')
            (js ''https://imagex.bytedanceapi.com/?Action=CommitImageUpload'')
            [(js ''x-amz-date'', js ''20260101T000000Z'')] (js ''AKTP'') (js ''secret'')
            (js ''STSeyJ'') (js ''{}'') =
         createAWSSignature rt (js ''POST'')
            (js ''https://imagex.bytedanceapi.com/?Action=CommitImageUpload'')
            [(js ''x-amz-date'', js ''20260101T000000Z'')] (js ''AKTP'') (js ''secret'')
            (js ''STSeyJ '') (js ''{}''))"
proof -
  have g: "toUpperCase rt (js ''GET'') \<noteq> js ''POST''" for rt :: "'d runtime"
    by (simp add: js_def toUpperCase_def)
  have n: "js ''STSeyJ'' \<noteq> []" "js ''STSeyJ '' \<noteq> []"
    by (simp_all add: js_def)
  have t: "trim (js ''STSeyJ'') = trim (js ''STSeyJ '')"
    by (simp add: js_def trim_def isWhiteSpace_def)
  have d: "js ''a'' \<noteq> js ''b''" "js ''STSeyJ'' \<noteq> js ''STSeyJ ''"
    by (simp_all add: js_def)
  from d signature_payload_unused[OF g] signature_token_whitespace[OF n t]
  show ?thesis by blast
qed

end
